theory Spec2Isabelle
  imports Complex_Main "HOL-Library.AList"
begin

section \<open>Text primitives of the host language\<close>

text \<open>
  The analyzer works on Python \<^verbatim>\<open>str\<close> values. A \<^typ>\<open>char\<close> stands for one code
  point of the Latin-1 block (0 to 255), so \<^const>\<open>length\<close> counts code points as
  Python's \<^verbatim>\<open>len\<close> does, and the Swedish letters are single characters. Text with
  code points above 255 is outside this model. The argument of the public operations is
  a \<^typ>\<open>string option\<close>: \<^term>\<open>None\<close> is Python's \<^verbatim>\<open>None\<close>.

  Weights, scores and confidences are Python floats in the source. The scorer is given
  twice. The sections on sentiment scoring compute with exact rationals; the statements
  about which total a word adds to, and about the quotient that is the score, are made
  there. The sections on double precision compute every sum, quotient and comparison as
  IEEE 754 does; the statements about the label at the thresholds are made there, since
  rounding decides the label of a score next to 0.4 or 0.6.
\<close>

abbreviation a_ring :: char where "a_ring \<equiv> CHR 0xE5"
abbreviation a_uml :: char where "a_uml \<equiv> CHR 0xE4"
abbreviation o_uml :: char where "o_uml \<equiv> CHR 0xF6"

definition code :: "char \<Rightarrow> nat" where
  "code c = of_char c"

text \<open>\<^verbatim>\<open>str.isspace\<close>, which is also the class \<^verbatim>\<open>\s\<close> of \<^verbatim>\<open>re\<close> on \<^verbatim>\<open>str\<close> patterns.\<close>

definition isspace :: "char \<Rightarrow> bool" where
  "isspace c = (code c \<in> set [0x09, 0x0A, 0x0B, 0x0C, 0x0D, 0x1C, 0x1D, 0x1E, 0x1F, 0x20, 0x85, 0xA0])"

text \<open>The class \<^verbatim>\<open>\w\<close>: alphanumeric code points and the underscore.\<close>

definition isword :: "char \<Rightarrow> bool" where
  "isword c = (let n = code c in
     (0x30 \<le> n \<and> n \<le> 0x39) \<or> (0x41 \<le> n \<and> n \<le> 0x5A) \<or> n = 0x5F \<or> (0x61 \<le> n \<and> n \<le> 0x7A)
     \<or> n \<in> set [0xAA, 0xB2, 0xB3, 0xB5, 0xB9, 0xBA, 0xBC, 0xBD, 0xBE]
     \<or> (0xC0 \<le> n \<and> n \<le> 0xD6) \<or> (0xD8 \<le> n \<and> n \<le> 0xF6) \<or> 0xF8 \<le> n)"

text \<open>\<^verbatim>\<open>str.lower\<close>: on Latin-1 it maps each capital letter to the letter 32 places on.\<close>

definition lower_char :: "char \<Rightarrow> char" where
  "lower_char c = (let n = code c in
     if (0x41 \<le> n \<and> n \<le> 0x5A) \<or> (0xC0 \<le> n \<and> n \<le> 0xDE \<and> n \<noteq> 0xD7)
     then char_of (n + 32) else c)"

definition lower :: "string \<Rightarrow> string" where
  "lower s = map lower_char s"

text \<open>\<^verbatim>\<open>str.strip()\<close>: whitespace is removed at both ends.\<close>

definition strip :: "string \<Rightarrow> string" where
  "strip s = rev (dropWhile isspace (rev (dropWhile isspace s)))"

text \<open>\<^verbatim>\<open>str.split()\<close>: the maximal runs of characters that are not whitespace.\<close>

function split :: "string \<Rightarrow> string list" where
  "split s =
     (let t = dropWhile isspace s in
      if t = [] then []
      else takeWhile (\<lambda>c. \<not> isspace c) t # split (dropWhile (\<lambda>c. \<not> isspace c) t))"
  by pat_completeness auto
termination
proof (relation "measure length")
  show "wf (measure length)" by simp
next
  fix s t :: string
  assume t: "t = dropWhile isspace s" and ne: "t \<noteq> []"
  from ne obtain c cs where tc: "t = c # cs" by (cases t) auto
  with t have "\<not> isspace c" by (metis hd_dropWhile list.sel(1) ne)
  then have "length (dropWhile (\<lambda>c. \<not> isspace c) t) \<le> length cs"
    by (simp add: tc length_dropWhile_le)
  moreover have "length t \<le> length s"
    by (simp add: t length_dropWhile_le)
  ultimately show "(dropWhile (\<lambda>c. \<not> isspace c) t, s) \<in> measure length"
    by (simp add: tc)
qed

declare split.simps [simp del]


section \<open>Preprocessing\<close>

text \<open>
  \<^verbatim>\<open>re.sub(r'\s+', ' ', s)\<close>: every maximal run of whitespace becomes one space.
\<close>

function sub_spaces :: "string \<Rightarrow> string" where
  "sub_spaces [] = []"
| "sub_spaces (c # cs) =
     (if isspace c then CHR '' '' # sub_spaces (dropWhile isspace cs) else c # sub_spaces cs)"
  by pat_completeness auto
termination
  by (relation "measure length") (auto simp: less_Suc_eq_le length_dropWhile_le)

text \<open>
  The URL pattern is \<^verbatim>\<open>http[s]?://\<close> followed by one or more repetitions of the
  group \<^verbatim>\<open>[a-zA-Z]|[0-9]|[$-_@.&+]|[!*\\(\\),]|%XX\<close>. \<open>url_char\<close> lists the four
  character classes in the pattern's order; the range \<^verbatim>\<open>$-_\<close> is 0x24 to 0x5F. The
  fifth alternative starts with a percent sign, which the third class already takes, so a
  repetition always consumes exactly one character and the group matches the longest run
  of \<open>url_char\<close>. \<open>url_match s\<close> is the rest of \<open>s\<close> after a match at its start.
\<close>

definition url_char :: "char \<Rightarrow> bool" where
  "url_char c = (let n = code c in
     ((0x61 \<le> n \<and> n \<le> 0x7A) \<or> (0x41 \<le> n \<and> n \<le> 0x5A))
     \<or> (0x30 \<le> n \<and> n \<le> 0x39)
     \<or> ((0x24 \<le> n \<and> n \<le> 0x5F) \<or> c \<in> set ''@.&+'')
     \<or> c \<in> set [CHR ''!'', CHR ''*'', CHR 0x5C, CHR ''('', CHR '')'', CHR '',''])"

definition url_match :: "string \<Rightarrow> string option" where
  "url_match s =
     (let after_scheme =
        (if take 8 s = ''https://'' then Some (drop 8 s)
         else if take 7 s = ''http://'' then Some (drop 7 s)
         else None)
      in case after_scheme of
           None \<Rightarrow> None
         | Some r \<Rightarrow> if takeWhile url_char r = [] then None else Some (dropWhile url_char r))"

text \<open>\<^verbatim>\<open>re.sub(pattern, '', s)\<close>: the leftmost matches are removed, scanning on after each.\<close>

function remove_urls :: "string \<Rightarrow> string" where
  "remove_urls [] = []"
| "remove_urls (c # cs) =
     (case url_match (c # cs) of
        Some r \<Rightarrow> remove_urls r
      | None \<Rightarrow> c # remove_urls cs)"
  by pat_completeness auto
termination
proof (relation "measure length")
  show "wf (measure length)" by simp
next
  fix c :: char and cs r :: string
  assume m: "url_match (c # cs) = Some r"
  have shorter: "length r < length s" if "url_match s = Some r" for s
  proof -
    have d: "length (dropWhile url_char (drop k s)) \<le> length s - k" for k
      by (metis length_dropWhile_le length_drop)
    from that have "\<exists>k\<in>{7, 8}. r = dropWhile url_char (drop k s) \<and> k \<le> length s"
      by (auto simp: url_match_def Let_def split: if_splits dest: arg_cong [where f = length])
    then obtain k where "r = dropWhile url_char (drop k s)" "k \<le> length s" "0 < k" by auto
    with d [of k] show ?thesis by simp
  qed
  from shorter [OF m] show "(r, c # cs) \<in> measure length" by simp
next
  fix c :: char and cs :: string
  show "(cs, c # cs) \<in> measure length" by simp
qed

text \<open>
  The e-mail pattern is \<^verbatim>\<open>\S+@\S+\<close>. At the start of \<open>s\<close> it matches exactly when
  the run of non-whitespace characters there has an \<^verbatim>\<open>@\<close> that is neither its first
  nor its last character; both \<^verbatim>\<open>\S+\<close> are greedy, so the match is the whole run.
\<close>

definition email_match :: "string \<Rightarrow> string option" where
  "email_match s =
     (let run = takeWhile (\<lambda>c. \<not> isspace c) s in
      if CHR ''@'' \<in> set (butlast (tl run)) then Some (dropWhile (\<lambda>c. \<not> isspace c) s)
      else None)"

function remove_emails :: "string \<Rightarrow> string" where
  "remove_emails [] = []"
| "remove_emails (c # cs) =
     (case email_match (c # cs) of
        Some r \<Rightarrow> remove_emails r
      | None \<Rightarrow> c # remove_emails cs)"
  by pat_completeness auto
termination
proof (relation "measure length")
  show "wf (measure length)" by simp
next
  fix c :: char and cs r :: string
  assume m: "email_match (c # cs) = Some r"
  then have r: "r = dropWhile (\<lambda>c. \<not> isspace c) (c # cs)"
    and ne: "takeWhile (\<lambda>c. \<not> isspace c) (c # cs) \<noteq> []"
    by (auto simp: email_match_def Let_def split: if_splits)
  from ne have c: "\<not> isspace c" by (auto split: if_splits)
  show "(r, c # cs) \<in> measure length"
    using length_dropWhile_le [of "\<lambda>c. \<not> isspace c" cs] by (simp add: r c)
next
  fix c :: char and cs :: string
  show "(cs, c # cs) \<in> measure length" by simp
qed

definition preprocess_text :: "string option \<Rightarrow> string" where
  "preprocess_text text =
     (case text of
        None \<Rightarrow> []
      | Some s \<Rightarrow>
          if s = [] then []
          else remove_emails (remove_urls (sub_spaces (strip s))))"

section \<open>Lexicon\<close>

text \<open>
  The word sets of \<^verbatim>\<open>_initialize_model\<close>, in the order of the source. Membership in
  a Python set is membership in \<^const>\<open>set\<close> of the list; the dictionary of
  intensifiers is read with \<^const>\<open>map_of\<close>.
\<close>

definition positive_words :: "string list" where
  "positive_words =
   [''bra'', ''fantastisk'', ''utm'' @ [a_uml] @ ''rkt'', ''perfekt'', ''underbar'',
    ''toppenklass'', ''rekommenderar'', ''n'' @ [o_uml] @ ''jd'', ''glad'',
    ''lysande'', ''grym'', ''suver'' @ [a_uml] @ ''n'', ''str'' @ [a_ring] @ ''lande'',
    ''magnifik'', ''outstanding'', ''f'' @ [o_uml] @ ''rtjusande'',
    ''h'' @ [a_uml] @ ''rlig'', ''fenomenal'', ''otrolig'',
    ''enast'' @ [a_ring] @ ''ende'', ''felfri'', ''imponerande'',
    ''tillfredsst'' @ [a_uml] @ ''llande'', ''prisv'' @ [a_uml] @ ''rd'', ''effektiv'',
    ''snabb'', ''hj'' @ [a_uml] @ ''lpsam'', ''v'' @ [a_uml] @ ''nlig'',
    ''professionell'', ''kvalitet'', ''v'' @ [a_uml] @ ''rd'',
    ''rekommenderar starkt'', [a_uml] @ ''lskar'', ''fantastisk service'',
    ''b'' @ [a_uml] @ ''sta'', ''toppen'', ''superbra'', ''k'' @ [a_uml] @ ''mpa'',
    ''tacksam'', ''imponerad'',
    [o_uml] @ ''vertr'' @ [a_uml] @ ''ffade f'' @ [o_uml] @ ''rv'' @ [a_uml] @ ''ntningar'',
    ''excellent'', ''amazing'', ''great'', ''good'', ''perfect'', ''wonderful'',
    ''love'', ''awesome'', ''best'', ''brilliant'', ''outstanding'', ''fantastic'',
    ''superb'', ''marvelous'', ''exceptional'', ''impressive'', ''satisfying'',
    ''pleased'', ''delighted'', ''thrilled'', ''happy'', ''satisfied'', ''recommend'',
    ''worth'', ''value'', ''quality'', ''fast'', ''friendly'', ''helpful'',
    ''professional'', ''efficient'', ''exceeded expectations'']"

definition negative_words :: "string list" where
  "negative_words =
   [''d'' @ [a_ring] @ ''lig'', ''hemsk'', ''fruktansv'' @ [a_uml] @ ''rd'',
    ''besviken'', ''s'' @ [a_uml] @ ''mst'', ''trasig'', ''problem'', ''fel'',
    ''kass'', ''usel'', ''ruskig'', ''otillfredsst'' @ [a_uml] @ ''llande'',
    ''besvikelse'', ''irriterande'', ''f'' @ [o_uml] @ ''rf'' @ [a_uml] @ ''rlig'',
    ''katastrofal'', ''v'' @ [a_uml] @ ''rdel'' @ [o_uml] @ ''s'',
    ''op'' @ [a_ring] @ ''litlig'', ''l'' @ [a_ring] @ ''ngsam'', ''dyr'',
    [o_uml] @ ''verpris'', ''sv'' @ [a_ring] @ ''rt'', ''komplicerat'', ''otrevlig'',
    ''oprofessionell'', ''slarvig'', ''bristf'' @ [a_uml] @ ''llig'', ''misslyckad'',
    [a_ring] @ ''nger'', ''sl'' @ [o_uml] @ ''seri'', ''inte v'' @ [a_uml] @ ''rt'',
    ''rekommenderar inte'', ''undvik'', ''bedr'' @ [a_uml] @ ''geri'', ''bluff'',
    ''skandal'', ''f'' @ [o_uml] @ ''rsenad'', ''f'' @ [o_uml] @ ''rlorad'',
    ''skadad'', ''bad'', ''terrible'', ''awful'', ''worst'', ''horrible'', ''hate'',
    ''disappointed'', ''broken'', ''failed'', ''poor'', ''wrong'', ''disgusting'',
    ''useless'', ''waste'', ''scam'', ''fraud'', ''delayed'', ''damaged'',
    ''unreliable'', ''slow'', ''expensive'', ''overpriced'', ''complicated'',
    ''unprofessional'', ''rude'', ''regret'', ''avoid'', ''not recommend'']"

definition negation_words :: "string list" where
  "negation_words =
   [''inte'', ''icke'', ''ej'', ''aldrig'', ''ingenting'', ''inget'', ''ingen'',
    ''not'', ''no'', ''never'', ''nothing'', ''none'', ''neither'', ''nor'']"

definition intensifiers :: "(string \<times> rat) list" where
  "intensifiers =
   [(''mycket'', 1.5), (''v'' @ [a_uml] @ ''ldigt'', 1.5), (''extremt'', 2.0), (''otroligt'', 2.0),
    (''helt'', 1.3), (''verkligen'', 1.4), (''absolut'', 1.8), (''definitivt'', 1.4),
    (''very'', 1.5), (''extremely'', 2.0), (''absolutely'', 1.8), (''really'', 1.4),
    (''incredibly'', 2.0), (''totally'', 1.6), (''completely'', 1.7), (''quite'', 1.2)]"

definition intensifier :: "string \<Rightarrow> rat option" where
  "intensifier w = map_of intensifiers w"

section \<open>Sentiment scoring\<close>

datatype label = Positive | Negative | Neutral

record raw_scores =
  positive :: rat
  negative :: rat
  word_count :: nat

text \<open>The result dictionary; \<open>scores = None\<close> is the empty dictionary \<^verbatim>\<open>{}\<close>.\<close>

record sentiment_result =
  sentiment :: label
  score :: rat
  confidence :: rat
  scores :: "raw_scores option"

datatype py_error = ZeroDivisionError

text \<open>Python's \<^verbatim>\<open>/\<close> raises on a zero divisor.\<close>

definition truediv :: "rat \<Rightarrow> rat \<Rightarrow> py_error + rat" where
  "truediv a b = (if b = 0 then Inl ZeroDivisionError else Inr (a / b))"

text \<open>The two context checks of the loop body, for the word at index \<open>i\<close>.\<close>

definition negated_at :: "string list \<Rightarrow> nat \<Rightarrow> bool" where
  "negated_at words i =
     (if i > 0 \<and> words ! (i - 1) \<in> set negation_words then True
      else if i > 1 \<and> words ! (i - 2) \<in> set negation_words then True
      else False)"

definition intensity_at :: "string list \<Rightarrow> nat \<Rightarrow> rat" where
  "intensity_at words i =
     (case (if i > 0 then intensifier (words ! (i - 1)) else None) of
        Some f \<Rightarrow> f
      | None \<Rightarrow>
          (case (if i > 1 then intensifier (words ! (i - 2)) else None) of
             Some f \<Rightarrow> f
           | None \<Rightarrow> 1.0))"

text \<open>One iteration of \<^verbatim>\<open>for i, word in enumerate(words)\<close>, on the running totals.\<close>

definition score_word :: "string list \<Rightarrow> raw_scores \<Rightarrow> nat \<times> string \<Rightarrow> raw_scores" where
  "score_word words acc iw =
     (case iw of (i, word) \<Rightarrow>
        let negated = negated_at words i;
            intensity = intensity_at words i
        in if word \<in> set positive_words then
             (let s = 1.0 * intensity in
              if negated
              then acc\<lparr>negative := negative acc + s, word_count := word_count acc + 1\<rparr>
              else acc\<lparr>positive := positive acc + s, word_count := word_count acc + 1\<rparr>)
           else if word \<in> set negative_words then
             (let s = 1.0 * intensity in
              if negated
              then acc\<lparr>positive := positive acc + s, word_count := word_count acc + 1\<rparr>
              else acc\<lparr>negative := negative acc + s, word_count := word_count acc + 1\<rparr>)
           else acc)"

definition scan :: "string list \<Rightarrow> raw_scores" where
  "scan words =
     foldl (score_word words) \<lparr>positive = 0, negative = 0, word_count = 0\<rparr> (enumerate 0 words)"

definition classify :: "rat \<Rightarrow> label" where
  "classify sentiment_score =
     (if sentiment_score > 0.6 then Positive
      else if sentiment_score < 0.4 then Negative
      else Neutral)"

text \<open>The body of the \<^verbatim>\<open>try\<close> block; \<open>Inl\<close> is a raised exception.\<close>

definition analyze_try :: "string option \<Rightarrow> py_error + sentiment_result" where
  "analyze_try text =
     (let clean_text = lower (preprocess_text text) in
      if length clean_text < 3 then
        Inr \<lparr>sentiment = Neutral, score = 0.5, confidence = 0.1, scores = None\<rparr>
      else
        let words = split clean_text;
            acc = scan words
        in if word_count acc = 0 then
             Inr \<lparr>sentiment = Neutral, score = 0.5, confidence = 0.2,
                  scores = Some \<lparr>positive = 0, negative = 0, word_count = 0\<rparr>\<rparr>
           else
             let total_score = positive acc + negative acc;
                 normalized =
                   (if total_score = 0 then Inr (0.5, 0.1)
                    else case truediv (positive acc) total_score of
                           Inl e \<Rightarrow> Inl e
                         | Inr sentiment_score \<Rightarrow>
                             (case truediv (of_nat (word_count acc)) (of_nat (length words)) of
                                Inl e \<Rightarrow> Inl e
                              | Inr ratio \<Rightarrow> Inr (sentiment_score, min ratio 1.0)))
             in case normalized of
                  Inl e \<Rightarrow> Inl e
                | Inr (sentiment_score, conf) \<Rightarrow>
                    Inr \<lparr>sentiment = classify sentiment_score, score = sentiment_score,
                         confidence = conf, scores = Some acc\<rparr>)"

text \<open>
  \<^verbatim>\<open>if not text\<close> holds for \<^verbatim>\<open>None\<close> and for the empty string. The handler of the
  \<^verbatim>\<open>try\<close> block turns every exception into the neutral result with confidence 0.
\<close>

definition falsy :: "string option \<Rightarrow> bool" where
  "falsy text = (case text of None \<Rightarrow> True | Some s \<Rightarrow> s = [])"

definition analyze_sentiment :: "string option \<Rightarrow> sentiment_result" where
  "analyze_sentiment text =
     (if falsy text then
        \<lparr>sentiment = Neutral, score = 0.5, confidence = 0.0, scores = None\<rparr>
      else case analyze_try text of
             Inr result \<Rightarrow> result
           | Inl e \<Rightarrow> \<lparr>sentiment = Neutral, score = 0.5, confidence = 0.0, scores = None\<rparr>)"


section \<open>Keyword extraction\<close>

definition stop_words :: "string list" where
  "stop_words =
   [''och'', ''i'', ''att'', ''det'', ''som'', ''p'' @ [a_ring], ''de'', ''av'',
    ''f'' @ [o_uml] @ ''r'', ''till'', [a_uml] @ ''r'', ''en'', ''den'', ''har'',
    ''inte'', ''var'', ''om'', ''med'', ''kan'', ''man'', ''s'' @ [a_ring],
    ''fr'' @ [a_ring] @ ''n'', ''ut'', ''n'' @ [a_uml] @ ''r'', ''bara'', ''sina'',
    ''d'' @ [a_uml] @ ''r'', ''nu'', [o_uml] @ ''ver'', ''skulle'', ''d'' @ [a_ring],
    ''hade'', ''upp'', ''mot'', ''ocks'' @ [a_ring], [a_uml] @ ''n'', ''mycket'',
    ''bra'', ''d'' @ [a_ring] @ ''lig'', ''d'' @ [a_ring] @ ''ligt'',
    ''b'' @ [a_uml] @ ''ttre'', ''s'' @ [a_uml] @ ''mre'', ''helt'',
    ''v'' @ [a_uml] @ ''ldigt'', ''riktigt'']"

text \<open>
  \<^verbatim>\<open>re.sub(r'[^\w\s]', ' ', s)\<close>: a character that is neither a word character nor
  whitespace becomes a space.
\<close>

definition sub_punct :: "string \<Rightarrow> string" where
  "sub_punct s = map (\<lambda>c. if \<not> isword c \<and> \<not> isspace c then CHR '' '' else c) s"

text \<open>
  \<open>word_freq\<close> is a Python dictionary, which keeps its keys in insertion order: an
  association list. \<^const>\<open>AList.update\<close> overwrites the value of a key that is present,
  in place, and appends a new key at the end, as the assignment \<^verbatim>\<open>d[k] = v\<close> does.
\<close>

definition get :: "(string \<times> nat) list \<Rightarrow> string \<Rightarrow> nat \<Rightarrow> nat" where
  "get d k dflt = (case map_of d k of None \<Rightarrow> dflt | Some v \<Rightarrow> v)"

definition count_word :: "(string \<times> nat) list \<Rightarrow> string \<Rightarrow> (string \<times> nat) list" where
  "count_word word_freq word = AList.update word (get word_freq word 0 + 1) word_freq"

text \<open>
  \<^verbatim>\<open>sorted(xs, key=key, reverse=True)\<close> sorts in descending key order and keeps elements
  with equal keys in their original order. CPython reverses the list, sorts it stably in
  ascending order and reverses the result; \<^const>\<open>sort_key\<close> is a stable insertion sort.
\<close>

definition sorted_reverse :: "('a \<Rightarrow> nat) \<Rightarrow> 'a list \<Rightarrow> 'a list" where
  "sorted_reverse key xs = rev (sort_key key (rev xs))"

text \<open>The slice \<^verbatim>\<open>xs[:m]\<close>; a negative bound counts from the end of the list.\<close>

definition slice_to :: "'a list \<Rightarrow> int \<Rightarrow> 'a list" where
  "slice_to xs m = (if 0 \<le> m then take (nat m) xs else take (nat (int (length xs) + m)) xs)"

definition extract_keywords :: "string option \<Rightarrow> int \<Rightarrow> string list" where
  "extract_keywords text max_keywords =
     (case text of
        None \<Rightarrow> []
      | Some s \<Rightarrow>
          if s = [] then []
          else
            let words = split (sub_punct (lower s));
                keywords = filter (\<lambda>word. length word > 3 \<and> word \<notin> set stop_words) words;
                word_freq = foldl count_word [] keywords;
                sorted_keywords = sorted_reverse snd word_freq
            in map fst (slice_to sorted_keywords max_keywords))"

section \<open>Batch operation\<close>

text \<open>
  A result dictionary with the key \<^verbatim>\<open>keywords\<close> added (the field is primed, the
  plain name being reserved in theory headers).
\<close>

record analysis = sentiment_result +
  keywords' :: "string list"

definition with_keywords :: "sentiment_result \<Rightarrow> string list \<Rightarrow> analysis" where
  "with_keywords result ks = sentiment_result.extend result (analysis.fields ks)"

text \<open>\<^verbatim>\<open>extract_keywords(text)\<close> uses the default \<^verbatim>\<open>max_keywords = 10\<close>.\<close>

definition batch_analyze :: "string option list \<Rightarrow> analysis list" where
  "batch_analyze texts =
     foldl (\<lambda>results text.
              let result = analyze_sentiment text;
                  result = with_keywords result (extract_keywords text 10)
              in results @ [result])
       [] texts"


section \<open>Notions used in the statements\<close>

text \<open>The cleaned, lowercased form of a text, and the words that carry sentiment.\<close>

definition cleaned :: "string \<Rightarrow> string" where
  "cleaned text = lower (preprocess_text (Some text))"

definition sentiment_word :: "string \<Rightarrow> bool" where
  "sentiment_word w = (w \<in> set positive_words \<or> w \<in> set negative_words)"

text \<open>
  The tokens of the cleaned text in keyword extraction, and the position of the first
  occurrence of a word in a list (the length of the list when the word is absent).
\<close>

definition tokens :: "string \<Rightarrow> string list" where
  "tokens s = split (sub_punct (lower s))"

definition first_index :: "'a list \<Rightarrow> 'a \<Rightarrow> nat" where
  "first_index xs x = length (takeWhile (\<lambda>y. y \<noteq> x) xs)"

section \<open>Double-precision arithmetic\<close>

text \<open>
  A Python float is an IEEE 754 binary64 number. It is represented here by its exact
  value, a rational with a significand of 53 bits. Each arithmetic operation returns the
  exact result rounded to the nearest such number, ties to the even significand, and a
  decimal literal denotes the number nearest to it. The exponent is not bounded: the
  values of the analyzer are 0 or lie between \<open>1 / (2 * n)\<close> and \<open>2 * n\<close> for a text of
  \<open>n\<close> tokens, far inside the range of binary64 for every list a Python process can hold.
\<close>

fun log2n :: "nat \<Rightarrow> nat" where
  "log2n n = (if n < 2 then 0 else Suc (log2n (n div 2)))"

declare log2n.simps [simp del]

definition pow2 :: "int \<Rightarrow> rat" where
  "pow2 k = (if 0 \<le> k then 2 ^ nat k else 1 / 2 ^ nat (- k))"

text \<open>The exponent of a positive number: \<open>pow2 (ilog2 x) \<le> x < pow2 (ilog2 x + 1)\<close>.\<close>

definition ilog2 :: "rat \<Rightarrow> int" where
  "ilog2 x =
     (if 1 \<le> x then int (log2n (nat \<lfloor>x\<rfloor>))
      else let y = 1 / x; n = log2n (nat \<lfloor>y\<rfloor>)
           in if y = 2 ^ n then - int n else - int n - 1)"

definition round_half_even :: "rat \<Rightarrow> int" where
  "round_half_even y =
     (let f = \<lfloor>y\<rfloor>; r = y - of_int f
      in if r < 1 / 2 then f
         else if 1 / 2 < r then f + 1
         else if even f then f else f + 1)"

definition round53 :: "rat \<Rightarrow> rat" where
  "round53 x =
     (if x = 0 then 0
      else let e = ilog2 \<bar>x\<bar> - 52
           in sgn x * of_int (round_half_even (\<bar>x\<bar> / pow2 e)) * pow2 e)"

definition literal :: "rat \<Rightarrow> rat" where
  "literal x = round53 x"

definition fadd :: "rat \<Rightarrow> rat \<Rightarrow> rat" where
  "fadd a b = round53 (a + b)"

definition fmul :: "rat \<Rightarrow> rat \<Rightarrow> rat" where
  "fmul a b = round53 (a * b)"

definition fdiv :: "rat \<Rightarrow> rat \<Rightarrow> py_error + rat" where
  "fdiv a b = (if b = 0 then Inl ZeroDivisionError else Inr (round53 (a / b)))"

section \<open>Sentiment scoring in double precision\<close>

text \<open>
  The scorer once more, with every weight, sum, quotient and threshold a double as in the
  source. Tokens, context checks and the count of matched words are those of the exact
  model; only the arithmetic differs.
\<close>

definition intensity_at_f64 :: "string list \<Rightarrow> nat \<Rightarrow> rat" where
  "intensity_at_f64 words i =
     (case (if i > 0 then intensifier (words ! (i - 1)) else None) of
        Some f \<Rightarrow> literal f
      | None \<Rightarrow>
          (case (if i > 1 then intensifier (words ! (i - 2)) else None) of
             Some f \<Rightarrow> literal f
           | None \<Rightarrow> literal 1.0))"

definition score_word_f64 :: "string list \<Rightarrow> raw_scores \<Rightarrow> nat \<times> string \<Rightarrow> raw_scores" where
  "score_word_f64 words acc iw =
     (case iw of (i, word) \<Rightarrow>
        let negated = negated_at words i;
            intensity = intensity_at_f64 words i
        in if word \<in> set positive_words then
             (let s = fmul (literal 1.0) intensity in
              if negated
              then acc\<lparr>negative := fadd (negative acc) s, word_count := word_count acc + 1\<rparr>
              else acc\<lparr>positive := fadd (positive acc) s, word_count := word_count acc + 1\<rparr>)
           else if word \<in> set negative_words then
             (let s = fmul (literal 1.0) intensity in
              if negated
              then acc\<lparr>positive := fadd (positive acc) s, word_count := word_count acc + 1\<rparr>
              else acc\<lparr>negative := fadd (negative acc) s, word_count := word_count acc + 1\<rparr>)
           else acc)"

definition scan_f64 :: "string list \<Rightarrow> raw_scores" where
  "scan_f64 words =
     foldl (score_word_f64 words) \<lparr>positive = 0, negative = 0, word_count = 0\<rparr>
       (enumerate 0 words)"

definition classify_f64 :: "rat \<Rightarrow> label" where
  "classify_f64 sentiment_score =
     (if sentiment_score > literal 0.6 then Positive
      else if sentiment_score < literal 0.4 then Negative
      else Neutral)"

definition analyze_try_f64 :: "string option \<Rightarrow> py_error + sentiment_result" where
  "analyze_try_f64 text =
     (let clean_text = lower (preprocess_text text) in
      if length clean_text < 3 then
        Inr \<lparr>sentiment = Neutral, score = literal 0.5, confidence = literal 0.1, scores = None\<rparr>
      else
        let words = split clean_text;
            acc = scan_f64 words
        in if word_count acc = 0 then
             Inr \<lparr>sentiment = Neutral, score = literal 0.5, confidence = literal 0.2,
                  scores = Some \<lparr>positive = 0, negative = 0, word_count = 0\<rparr>\<rparr>
           else
             let total_score = fadd (positive acc) (negative acc);
                 normalized =
                   (if total_score = 0 then Inr (literal 0.5, literal 0.1)
                    else case fdiv (positive acc) total_score of
                           Inl e \<Rightarrow> Inl e
                         | Inr sentiment_score \<Rightarrow>
                             (case fdiv (of_nat (word_count acc)) (of_nat (length words)) of
                                Inl e \<Rightarrow> Inl e
                              | Inr ratio \<Rightarrow> Inr (sentiment_score, min ratio (literal 1.0))))
             in case normalized of
                  Inl e \<Rightarrow> Inl e
                | Inr (sentiment_score, conf) \<Rightarrow>
                    Inr \<lparr>sentiment = classify_f64 sentiment_score, score = sentiment_score,
                         confidence = conf, scores = Some acc\<rparr>)"

definition analyze_sentiment_f64 :: "string option \<Rightarrow> sentiment_result" where
  "analyze_sentiment_f64 text =
     (if falsy text then
        \<lparr>sentiment = Neutral, score = literal 0.5, confidence = literal 0.0, scores = None\<rparr>
      else case analyze_try_f64 text of
             Inr result \<Rightarrow> result
           | Inl e \<Rightarrow>
               \<lparr>sentiment = Neutral, score = literal 0.5, confidence = literal 0.0,
                scores = None\<rparr>)"

section \<open>Properties of the lexicon and of the scan\<close>

lemma intensifiers_all: "list_all (\<lambda>p. 1 < snd p) intensifiers"
  by code_simp

lemma intensifier_gt_one:
  assumes "intensifier w = Some f" shows "1 < f"
proof -
  from assms have "(w, f) \<in> set intensifiers"
    unfolding intensifier_def by (rule map_of_SomeD)
  with intensifiers_all show ?thesis
    unfolding list_all_iff by fastforce
qed

lemma negation_all: "list_all (\<lambda>w. intensifier w = None) negation_words"
  by code_simp

lemma negation_not_intensifier: "w \<in> set negation_words \<Longrightarrow> intensifier w = None"
  using negation_all unfolding list_all_iff by blast

lemma intensity_at_ge_one: "1 \<le> intensity_at words i"
  unfolding intensity_at_def
  by (auto split: option.splits if_splits dest: intensifier_gt_one less_imp_le)

lemma score_word_weight:
  "rat_of_nat (word_count acc) \<le> positive acc + negative acc \<Longrightarrow>
   rat_of_nat (word_count (score_word words acc iw)) \<le>
     positive (score_word words acc iw) + negative (score_word words acc iw)"
  using intensity_at_ge_one [of words "fst iw"]
  by (cases iw) (simp add: score_word_def Let_def)

lemma foldl_score_word_weight:
  "rat_of_nat (word_count acc) \<le> positive acc + negative acc \<Longrightarrow>
   rat_of_nat (word_count (foldl (score_word words) acc xs)) \<le>
     positive (foldl (score_word words) acc xs) + negative (foldl (score_word words) acc xs)"
  by (induction xs arbitrary: acc) (simp_all add: score_word_weight)

lemma scan_weight:
  "rat_of_nat (word_count (scan words)) \<le> positive (scan words) + negative (scan words)"
  unfolding scan_def by (rule foldl_score_word_weight) simp

lemma word_count_score_word:
  "word_count (score_word words acc iw) =
     word_count acc + (if sentiment_word (snd iw) then 1 else 0)"
  by (cases iw) (simp add: score_word_def Let_def sentiment_word_def)

lemma word_count_foldl:
  "word_count (foldl (score_word words) acc xs) =
     word_count acc + length (filter sentiment_word (map snd xs))"
  by (induction xs arbitrary: acc) (simp_all add: word_count_score_word)

lemma word_count_scan: "word_count (scan words) = length (filter sentiment_word words)"
  unfolding scan_def by (simp add: word_count_foldl)

lemma cleaned_Nil: "cleaned [] = []"
  by (simp add: cleaned_def preprocess_text_def lower_def)

text \<open>
  For a non-empty string no exception is raised in the \<^verbatim>\<open>try\<close> block, and the result
  is one of three shapes.
\<close>

lemma analyze_sentiment_unfold:
  assumes "text \<noteq> []"
  shows "analyze_sentiment (Some text) =
     (if length (cleaned text) < 3 then
        \<lparr>sentiment = Neutral, score = 0.5, confidence = 0.1, scores = None\<rparr>
      else if word_count (scan (split (cleaned text))) = 0 then
        \<lparr>sentiment = Neutral, score = 0.5, confidence = 0.2,
         scores = Some \<lparr>positive = 0, negative = 0, word_count = 0\<rparr>\<rparr>
      else
        (let words = split (cleaned text); acc = scan words;
             s = positive acc / (positive acc + negative acc)
         in \<lparr>sentiment = classify s, score = s,
             confidence = min (of_nat (word_count acc) / of_nat (length words)) 1.0,
             scores = Some acc\<rparr>))"
proof -
  let ?words = "split (cleaned text)"
  let ?acc = "scan ?words"
  show ?thesis
  proof (cases "length (cleaned text) < 3 \<or> word_count ?acc = 0")
    case True
    then show ?thesis
      using assms
      by (auto simp: analyze_sentiment_def falsy_def analyze_try_def cleaned_def Let_def)
  next
    case False
    then have wc: "0 < word_count ?acc" by simp
    with scan_weight [of ?words] have tot: "positive ?acc + negative ?acc \<noteq> 0"
      by auto
    from wc have len: "length ?words \<noteq> 0"
      by (auto simp: word_count_scan)
    from False tot len assms show ?thesis
      by (simp add: analyze_sentiment_def falsy_def analyze_try_def cleaned_def Let_def
          truediv_def)
  qed
qed

lemma analyze_sentiment_falsy:
  "analyze_sentiment None = \<lparr>sentiment = Neutral, score = 0.5, confidence = 0.0, scores = None\<rparr>"
  "analyze_sentiment (Some []) = \<lparr>sentiment = Neutral, score = 0.5, confidence = 0.0, scores = None\<rparr>"
  by (simp_all add: analyze_sentiment_def falsy_def)


section \<open>Properties of the frequency table and of the sort\<close>

lemma first_index_less: "x \<in> set xs \<Longrightarrow> first_index xs x < length xs"
  unfolding first_index_def by (induction xs) auto

lemma first_index_snoc_in: "y \<in> set xs \<Longrightarrow> first_index (xs @ [x]) y = first_index xs y"
  unfolding first_index_def by (induction xs) auto

lemma first_index_snoc_new: "x \<notin> set xs \<Longrightarrow> first_index (xs @ [x]) x = length xs"
  unfolding first_index_def by (induction xs) auto

lemma first_index_filter:
  "P a \<Longrightarrow> P b \<Longrightarrow>
   first_index (filter P xs) a < first_index (filter P xs) b
     \<longleftrightarrow> first_index xs a < first_index xs b"
  unfolding first_index_def by (induction xs) auto

lemma count_list_filter: "P w \<Longrightarrow> count_list (filter P xs) w = count_list xs w"
  by (induction xs) auto

text \<open>
  The frequency table after counting the words \<open>ks\<close>: its keys are the distinct words of
  \<open>ks\<close> in the order of their first occurrence, each with its number of occurrences.
\<close>

lemma word_freq_keys:
  "distinct (map fst (foldl count_word [] ks))
   \<and> set (map fst (foldl count_word [] ks)) = set ks
   \<and> sorted_wrt (\<lambda>x y. first_index ks x < first_index ks y) (map fst (foldl count_word [] ks))"
proof (induction ks rule: rev_induct)
  case Nil
  show ?case by simp
next
  case (snoc x ks)
  let ?wf = "foldl count_word [] ks"
  let ?v = "get ?wf x 0 + 1"
  from snoc have d: "distinct (map fst ?wf)" and s: "set (map fst ?wf) = set ks"
    and o: "sorted_wrt (\<lambda>x y. first_index ks x < first_index ks y) (map fst ?wf)"
    by simp_all
  have step: "foldl count_word [] (ks @ [x]) = AList.update x ?v ?wf"
    by (simp add: count_word_def)
  have o': "sorted_wrt (\<lambda>a b. first_index (ks @ [x]) a < first_index (ks @ [x]) b) (map fst ?wf)"
    using o
  proof (rule sorted_wrt_mono_rel [rotated])
    fix a b
    assume "a \<in> set (map fst ?wf)" and "b \<in> set (map fst ?wf)"
      and "first_index ks a < first_index ks b"
    then show "first_index (ks @ [x]) a < first_index (ks @ [x]) b"
      unfolding s by (simp add: first_index_snoc_in)
  qed
  show ?case
  proof (cases "x \<in> set ks")
    case True
    with s have k: "map fst (AList.update x ?v ?wf) = map fst ?wf"
      by (simp add: update_keys)
    from True d s o' show ?thesis
      unfolding step k by auto
  next
    case False
    with s have k: "map fst (AList.update x ?v ?wf) = map fst ?wf @ [x]"
      by (simp add: update_keys)
    have "\<forall>a\<in>set (map fst ?wf). first_index (ks @ [x]) a < first_index (ks @ [x]) x"
      unfolding s using False
      by (simp add: first_index_snoc_in first_index_snoc_new first_index_less)
    with False d s o' show ?thesis
      unfolding step k by (auto simp: sorted_wrt_append)
  qed
qed

lemma word_freq_lookup:
  "map_of (foldl count_word [] ks) w = (if w \<in> set ks then Some (count_list ks w) else None)"
proof (induction ks rule: rev_induct)
  case Nil
  show ?case by simp
next
  case (snoc x ks)
  then show ?case
    by (auto simp: count_word_def get_def update_conv')
qed

lemma word_freq_entry:
  assumes "(w, n) \<in> set (foldl count_word [] ks)"
  shows "w \<in> set ks \<and> n = count_list ks w"
proof -
  from word_freq_keys [of ks] have "distinct (map fst (foldl count_word [] ks))" by simp
  with assms have "map_of (foldl count_word [] ks) w = Some n" by simp
  then show ?thesis by (simp add: word_freq_lookup split: if_splits)
qed

text \<open>The descending stable sort.\<close>

lemma set_sorted_reverse: "set (sorted_reverse key xs) = set xs"
  by (simp add: sorted_reverse_def)

lemma distinct_sorted_reverse: "distinct (sorted_reverse key xs) = distinct xs"
  by (simp add: sorted_reverse_def)

lemma sorted_reverse_descending: "sorted_wrt (\<lambda>a b. key b \<le> key a) (sorted_reverse key xs)"
proof -
  have "sorted_wrt (\<lambda>a b. key a \<le> key b) (sort_key key (rev xs))"
    using sorted_sort_key [of key "rev xs"] by (simp add: sorted_wrt_map)
  then show ?thesis by (simp add: sorted_reverse_def sorted_wrt_rev)
qed

lemma sorted_reverse_stable:
  "filter (\<lambda>y. key y = k) (sorted_reverse key xs) = filter (\<lambda>y. key y = k) xs"
proof -
  have "filter (\<lambda>y. key y = k) (sorted_reverse key xs)
      = rev (filter (\<lambda>y. key y = k) (sort_key key (rev xs)))"
    by (simp add: sorted_reverse_def rev_filter)
  also have "\<dots> = rev (filter (\<lambda>y. key y = k) (rev xs))"
    by (simp only: sort_key_stable)
  also have "\<dots> = filter (\<lambda>y. key y = k) xs"
    by (simp add: rev_filter)
  finally show ?thesis .
qed

lemma sorted_wrt_key_then:
  assumes "sorted_wrt (\<lambda>a b. (key b :: nat) \<le> key a) xs"
    and "\<And>k. sorted_wrt Q (filter (\<lambda>y. key y = k) xs)"
  shows "sorted_wrt (\<lambda>a b. key b < key a \<or> (key a = key b \<and> Q a b)) xs"
  using assms
proof (induction xs)
  case Nil
  show ?case by simp
next
  case (Cons x xs)
  have tail: "sorted_wrt Q (filter (\<lambda>y. key y = k) xs)" for k
    using Cons.prems(2) [of k] by (simp split: if_splits)
  have head: "key y < key x \<or> (key x = key y \<and> Q x y)" if y: "y \<in> set xs" for y
  proof (cases "key y = key x")
    case True
    with Cons.prems(2) [of "key x"] y show ?thesis by auto
  next
    case False
    with Cons.prems(1) y show ?thesis by auto
  qed
  from Cons.prems(1) have "sorted_wrt (\<lambda>a b. key b \<le> key a) xs" by simp
  with Cons.IH tail head show ?case by simp
qed

lemma slice_to_take: "\<exists>n. slice_to xs m = take n xs"
  by (auto simp: slice_to_def)

text \<open>
  The sorted frequency table is ordered by falling count and, among equal counts, by the
  first occurrence in the counted words.
\<close>

lemma sorted_keywords_order:
  "sorted_wrt (\<lambda>a b. snd b < snd a
        \<or> (snd a = snd b \<and> first_index ks (fst a) < first_index ks (fst b)))
     (sorted_reverse snd (foldl count_word [] ks))"
proof (rule sorted_wrt_key_then)
  show "sorted_wrt (\<lambda>a b. snd b \<le> snd a) (sorted_reverse snd (foldl count_word [] ks))"
    by (rule sorted_reverse_descending)
next
  fix k
  from word_freq_keys [of ks]
  have "sorted_wrt (\<lambda>a b. first_index ks (fst a) < first_index ks (fst b))
      (foldl count_word [] ks)"
    by (simp add: sorted_wrt_map)
  then show "sorted_wrt (\<lambda>a b. first_index ks (fst a) < first_index ks (fst b))
      (filter (\<lambda>y. snd y = k) (sorted_reverse snd (foldl count_word [] ks)))"
    unfolding sorted_reverse_stable by (rule sorted_wrt_filter)
qed

lemma extract_keywords_unfold:
  "s \<noteq> [] \<Longrightarrow> extract_keywords (Some s) m =
     map fst (slice_to (sorted_reverse snd (foldl count_word []
       (filter (\<lambda>word. length word > 3 \<and> word \<notin> set stop_words) (tokens s)))) m)"
  by (simp add: extract_keywords_def tokens_def Let_def)

lemma extract_keywords_falsy:
  "extract_keywords None m = []" "extract_keywords (Some []) m = []"
  by (simp_all add: extract_keywords_def)


lemma extract_keywords_cases:
  obtains "extract_keywords t m = []"
  | s n where "t = Some s" and "s \<noteq> []"
      and "extract_keywords t m =
        map fst (take n (sorted_reverse snd (foldl count_word []
          (filter (\<lambda>word. length word > 3 \<and> word \<notin> set stop_words) (tokens s)))))"
proof (cases t)
  case None
  then show ?thesis using that(1) by (simp add: extract_keywords_falsy)
next
  case (Some s)
  show ?thesis
  proof (cases "s = []")
    case True
    with Some show ?thesis using that(1) by (simp add: extract_keywords_falsy)
  next
    case False
    obtain n where "slice_to (sorted_reverse snd (foldl count_word []
          (filter (\<lambda>word. length word > 3 \<and> word \<notin> set stop_words) (tokens s)))) m
        = take n (sorted_reverse snd (foldl count_word []
          (filter (\<lambda>word. length word > 3 \<and> word \<notin> set stop_words) (tokens s))))"
      using slice_to_take by blast
    with Some False show ?thesis
      using that(2) [of s n] by (simp add: extract_keywords_unfold)
  qed
qed

lemma keywords_of_table:
  assumes "w \<in> set (map fst (take n (sorted_reverse snd (foldl count_word [] ks))))"
  shows "w \<in> set ks"
proof -
  from assms obtain c where "(w, c) \<in> set (take n (sorted_reverse snd (foldl count_word [] ks)))"
    by auto
  then have "(w, c) \<in> set (foldl count_word [] ks)"
    using set_sorted_reverse [of snd "foldl count_word [] ks"] by (auto dest: in_set_takeD)
  then show ?thesis by (simp add: word_freq_entry)
qed

lemma keywords_of_table_distinct:
  "distinct (map fst (take n (sorted_reverse snd (foldl count_word [] ks))))"
proof -
  let ?wf = "foldl count_word [] ks"
  from word_freq_keys [of ks] have "distinct (map fst ?wf)" by simp
  then have "distinct ?wf" and "inj_on fst (set ?wf)"
    by (simp_all add: distinct_map)
  then have "distinct (map fst (sorted_reverse snd ?wf))"
    by (simp add: distinct_map distinct_sorted_reverse set_sorted_reverse)
  then show ?thesis
    by (simp add: take_map [symmetric])
qed

lemma keywords_of_table_sorted:
  assumes ks: "ks = filter P toks"
  shows "sorted_wrt (\<lambda>a b. count_list toks b < count_list toks a
        \<or> (count_list toks a = count_list toks b \<and> first_index toks a < first_index toks b))
     (map fst (take n (sorted_reverse snd (foldl count_word [] ks))))"
proof -
  let ?L = "sorted_reverse snd (foldl count_word [] ks)"
  have entry: "P (fst a) \<and> snd a = count_list toks (fst a)" if "a \<in> set (take n ?L)" for a
  proof -
    obtain w c where a: "a = (w, c)" by (cases a)
    from that have "(w, c) \<in> set (foldl count_word [] ks)"
      using set_sorted_reverse [of snd "foldl count_word [] ks"]
      unfolding a by (auto dest: in_set_takeD)
    then have "w \<in> set ks \<and> c = count_list ks w"
      by (rule word_freq_entry)
    then show ?thesis by (simp add: a ks count_list_filter)
  qed
  have "sorted_wrt (\<lambda>a b. snd b < snd a
        \<or> (snd a = snd b \<and> first_index ks (fst a) < first_index ks (fst b))) (take n ?L)"
    using sorted_keywords_order [of ks] by (rule sorted_wrt_take)
  then have "sorted_wrt (\<lambda>a b. count_list toks (fst b) < count_list toks (fst a)
        \<or> (count_list toks (fst a) = count_list toks (fst b)
            \<and> first_index toks (fst a) < first_index toks (fst b))) (take n ?L)"
  proof (rule sorted_wrt_mono_rel [rotated])
    fix a b
    assume a: "a \<in> set (take n ?L)" and b: "b \<in> set (take n ?L)"
      and r: "snd b < snd a
        \<or> (snd a = snd b \<and> first_index ks (fst a) < first_index ks (fst b))"
    from entry [OF a] entry [OF b] r
    show "count_list toks (fst b) < count_list toks (fst a)
        \<or> (count_list toks (fst a) = count_list toks (fst b)
            \<and> first_index toks (fst a) < first_index toks (fst b))"
      unfolding ks by (auto simp: first_index_filter)
  qed
  then show ?thesis by (simp add: sorted_wrt_map)
qed

lemma batch_analyze_map:
  "batch_analyze texts =
     map (\<lambda>t. with_keywords (analyze_sentiment t) (extract_keywords t 10)) texts"
proof -
  have "foldl (\<lambda>results t.
              let result = analyze_sentiment t;
                  result = with_keywords result (extract_keywords t 10)
              in results @ [result]) acc texts
      = acc @ map (\<lambda>t. with_keywords (analyze_sentiment t) (extract_keywords t 10)) texts"
    for acc
    by (induction texts arbitrary: acc) (simp_all add: Let_def)
  then show ?thesis by (simp add: batch_analyze_def)
qed


section \<open>Properties of the rounding\<close>

lemma pow2_powi: "pow2 k = 2 powi k"
  by (simp add: pow2_def power_int_def inverse_eq_divide power_one_over)

lemma pow2_pos: "0 < pow2 k"
  by (simp add: pow2_powi)

lemma pow2_add: "pow2 (a + b) = pow2 a * pow2 b"
  by (simp add: pow2_powi power_int_add)

lemma pow2_mono: "a \<le> b \<Longrightarrow> pow2 a \<le> pow2 b"
  by (simp add: pow2_powi power_int_increasing)

lemma pow2_nat: "pow2 (int n) = 2 ^ n"
  by (simp add: pow2_def)

lemma log2n_bounds: "0 < n \<Longrightarrow> 2 ^ log2n n \<le> n \<and> n < 2 ^ Suc (log2n n)"
proof (induction n rule: log2n.induct)
  case (1 n)
  show ?case
  proof (cases "n < 2")
    case True
    with "1.prems" have "n = 1" by simp
    then show ?thesis by (simp add: log2n.simps [of "Suc 0"])
  next
    case False
    then have "0 < n div 2" by simp
    with "1.IH" False
    have ih: "2 ^ log2n (n div 2) \<le> n div 2 \<and> n div 2 < 2 ^ Suc (log2n (n div 2))"
      by simp
    from False have l: "log2n n = Suc (log2n (n div 2))"
      by (simp add: log2n.simps [of n])
    from ih show ?thesis unfolding l by auto
  qed
qed

lemma ilog2_bounds:
  assumes "0 < x"
  shows "pow2 (ilog2 x) \<le> x \<and> x < pow2 (ilog2 x + 1)"
proof (cases "1 \<le> x")
  case True
  let ?n = "nat \<lfloor>x\<rfloor>"
  let ?L = "log2n ?n"
  from True have n: "0 < ?n" by simp
  from True have fl: "rat_of_nat ?n \<le> x" and fu: "x < rat_of_nat ?n + 1"
    using floor_correct [of x] by (simp_all add: of_nat_nat)
  from log2n_bounds [OF n] have a: "2 ^ ?L \<le> ?n" and b: "?n + 1 \<le> 2 ^ Suc ?L"
    by simp_all
  have lo: "(2::rat) ^ ?L \<le> x"
  proof -
    have "(2::rat) ^ ?L = rat_of_nat (2 ^ ?L)" by simp
    also have "\<dots> \<le> rat_of_nat ?n" using a by (simp only: of_nat_le_iff)
    also note fl
    finally show ?thesis .
  qed
  have hi: "x < (2::rat) ^ Suc ?L"
  proof -
    note fu
    also have "rat_of_nat ?n + 1 = rat_of_nat (?n + 1)" by simp
    also have "\<dots> \<le> rat_of_nat (2 ^ Suc ?L)" using b by (simp only: of_nat_le_iff)
    also have "\<dots> = 2 ^ Suc ?L" by simp
    finally show ?thesis .
  qed
  have i: "ilog2 x = int ?L" using True by (simp add: ilog2_def)
  have "pow2 (int ?L + 1) = 2 ^ Suc ?L"
    using pow2_nat [of "Suc ?L"] by (simp add: add.commute)
  with lo hi show ?thesis unfolding i by (simp add: pow2_nat)
next
  case False
  let ?y = "1 / x"
  let ?n = "nat \<lfloor>?y\<rfloor>"
  let ?L = "log2n ?n"
  from False assms have y1: "1 < ?y" by simp
  then have n: "0 < ?n" by simp
  from assms have f0: "0 \<le> \<lfloor>?y\<rfloor>" by simp
  have fl: "rat_of_nat ?n \<le> ?y" and fu: "?y < rat_of_nat ?n + 1"
    using floor_correct [of ?y] f0 by (simp_all only: of_nat_nat of_int_add of_int_1)
  from log2n_bounds [OF n] have a: "2 ^ ?L \<le> ?n" and b: "?n + 1 \<le> 2 ^ Suc ?L"
    by simp_all
  have lo: "(2::rat) ^ ?L \<le> ?y"
  proof -
    have "(2::rat) ^ ?L = rat_of_nat (2 ^ ?L)" by simp
    also have "\<dots> \<le> rat_of_nat ?n" using a by (simp only: of_nat_le_iff)
    also note fl
    finally show ?thesis .
  qed
  have hi: "?y < (2::rat) ^ Suc ?L"
  proof -
    note fu
    also have "rat_of_nat ?n + 1 = rat_of_nat (?n + 1)" by simp
    also have "\<dots> \<le> rat_of_nat (2 ^ Suc ?L)" using b by (simp only: of_nat_le_iff)
    also have "\<dots> = 2 ^ Suc ?L" by simp
    finally show ?thesis .
  qed
  have x: "x = 1 / ?y" by simp
  have p: "pow2 (- int k) = 1 / 2 ^ k" for k
    by (simp add: pow2_def)
  show ?thesis
  proof (cases "?y = 2 ^ ?L")
    case True
    then have i: "ilog2 x = - int ?L" using False by (simp add: ilog2_def Let_def)
    from True have xe: "x = 1 / 2 ^ ?L" using x by simp
    have "pow2 (- int ?L) < pow2 (- int ?L + 1)"
      by (simp add: pow2_powi power_int_strict_increasing)
    then show ?thesis unfolding i using xe by (simp add: p)
  next
    case ne: False
    then have i: "ilog2 x = - int (Suc ?L)" using False by (simp add: ilog2_def Let_def)
    from ne lo have lo': "(2::rat) ^ ?L < ?y" by simp
    from hi assms have "1 / 2 ^ Suc ?L < x"
      by (simp add: field_simps)
    moreover from lo' assms have "x < 1 / 2 ^ ?L"
      by (simp add: field_simps)
    moreover have "- int (Suc ?L) + 1 = - int ?L" by simp
    ultimately show ?thesis unfolding i by (simp only: p) simp
  qed
qed

lemma round_half_even_bounds:
  assumes "of_int a \<le> y" and "y \<le> of_int b"
  shows "a \<le> round_half_even y \<and> round_half_even y \<le> b"
proof -
  from assms(1) have lo: "a \<le> \<lfloor>y\<rfloor>" by (simp add: le_floor_iff)
  from assms(2) have hi: "\<lfloor>y\<rfloor> \<le> b" by (simp add: floor_le_iff)
  have up: "\<lfloor>y\<rfloor> + 1 \<le> b" if "y \<noteq> of_int \<lfloor>y\<rfloor>"
  proof -
    from that of_int_floor_le [of y] have "of_int \<lfloor>y\<rfloor> < y"
      by (metis order.not_eq_order_implies_strict)
    with assms(2) have "of_int \<lfloor>y\<rfloor> < (of_int b :: rat)" by simp
    then show ?thesis by simp
  qed
  from lo hi up show ?thesis
    by (auto simp: round_half_even_def Let_def)
qed

lemma round53_form:
  assumes "0 < x"
  shows "\<exists>m. round53 x = of_int m * pow2 (ilog2 x - 52) \<and> 2 ^ 52 \<le> m \<and> m \<le> 2 ^ 53"
proof -
  let ?e = "ilog2 x - 52"
  let ?y = "x / pow2 ?e"
  from ilog2_bounds [OF assms]
  have lo: "pow2 (ilog2 x) \<le> x" and hi: "x < pow2 (ilog2 x + 1)" by simp_all
  have "ilog2 x = 52 + ?e" by simp
  then have "pow2 (ilog2 x) = pow2 (52 + ?e)" by (rule arg_cong)
  then have s1: "pow2 (ilog2 x) = pow2 52 * pow2 ?e" by (simp only: pow2_add)
  have "ilog2 x + 1 = 53 + ?e" by simp
  then have "pow2 (ilog2 x + 1) = pow2 (53 + ?e)" by (rule arg_cong)
  then have s2: "pow2 (ilog2 x + 1) = pow2 53 * pow2 ?e" by (simp only: pow2_add)
  have p52: "pow2 52 = of_int (2 ^ 52)" and p53: "pow2 53 = of_int (2 ^ 53)"
    by (simp_all add: pow2_def)
  from lo have "of_int (2 ^ 52) \<le> ?y"
    unfolding s1 p52 using pow2_pos [of ?e] by (simp add: pos_le_divide_eq)
  moreover from hi have "?y \<le> of_int (2 ^ 53)"
    unfolding s2 p53 using pow2_pos [of ?e] by (simp add: pos_divide_le_eq)
  ultimately have "2 ^ 52 \<le> round_half_even ?y \<and> round_half_even ?y \<le> 2 ^ 53"
    by (rule round_half_even_bounds)
  moreover have "round53 x = of_int (round_half_even ?y) * pow2 ?e"
    using assms by (simp add: round53_def Let_def)
  ultimately show ?thesis by blast
qed

lemma round53_nonpos: "x \<le> 0 \<Longrightarrow> round53 x \<le> 0"
proof (cases "x = 0")
  case True
  then show ?thesis by (simp add: round53_def)
next
  case False
  assume "x \<le> 0"
  with False have neg: "x < 0" by simp
  let ?e = "ilog2 \<bar>x\<bar> - 52"
  have "of_int 0 \<le> \<bar>x\<bar> / pow2 ?e"
    using pow2_pos [of ?e] by simp
  moreover have "\<bar>x\<bar> / pow2 ?e \<le> of_int (\<lceil>\<bar>x\<bar> / pow2 ?e\<rceil>)" by simp
  ultimately have "0 \<le> round_half_even (\<bar>x\<bar> / pow2 ?e)"
    using round_half_even_bounds by blast
  then have "0 \<le> rat_of_int (round_half_even (\<bar>x\<bar> / pow2 ?e)) * pow2 ?e"
    using pow2_pos [of ?e] by simp
  with neg show ?thesis
    by (simp add: round53_def Let_def False mult.assoc)
qed

text \<open>
  No double lies strictly between two neighbours \<open>M * 2\<^sup>E\<close> and \<open>(M + 1) * 2\<^sup>E\<close> of one
  binade.
\<close>

lemma round53_gap:
  assumes M: "2 ^ 52 \<le> M" "M < 2 ^ 53"
  shows "round53 q \<le> of_int M * pow2 E \<or> of_int (M + 1) * pow2 E \<le> round53 q"
proof (cases "0 < q")
  case False
  then have "round53 q \<le> 0" by (simp add: round53_nonpos)
  moreover have "0 \<le> rat_of_int M * pow2 E"
    using M pow2_pos [of E] by simp
  ultimately show ?thesis by simp
next
  case True
  let ?k = "ilog2 q"
  from round53_form [OF True] obtain m
    where r: "round53 q = of_int m * pow2 (?k - 52)" and m: "2 ^ 52 \<le> m" "m \<le> 2 ^ 53"
    by blast
  have p52: "pow2 52 = of_int (2 ^ 52)" and p53: "pow2 53 = of_int (2 ^ 53)"
    by (simp_all add: pow2_def)
  consider "?k - 52 < E" | "?k - 52 = E" | "E < ?k - 52" by linarith
  then show ?thesis
  proof cases
    case 1
    then have "pow2 (53 + (?k - 52)) \<le> pow2 (52 + E)" by (intro pow2_mono) simp
    then have "pow2 53 * pow2 (?k - 52) \<le> pow2 52 * pow2 E"
      by (simp only: pow2_add)
    moreover have "rat_of_int m * pow2 (?k - 52) \<le> pow2 53 * pow2 (?k - 52)"
      unfolding p53 using m pow2_pos [of "?k - 52"] by (simp only: mult_le_cancel_right) simp
    moreover have "pow2 52 * pow2 E \<le> rat_of_int M * pow2 E"
      unfolding p52 using M pow2_pos [of E] by (simp only: mult_le_cancel_right) simp
    ultimately show ?thesis unfolding r by linarith
  next
    case 2
    from M m have "m \<le> M \<or> M + 1 \<le> m" by linarith
    then have "rat_of_int m \<le> of_int M \<or> rat_of_int (M + 1) \<le> of_int m"
      by (simp only: of_int_le_iff)
    then show ?thesis
      unfolding r 2 using pow2_pos [of E] by (auto simp: mult_le_cancel_right)
  next
    case 3
    then have "pow2 (53 + E) \<le> pow2 (52 + (?k - 52))" by (intro pow2_mono) simp
    then have "pow2 53 * pow2 E \<le> pow2 52 * pow2 (?k - 52)"
      by (simp only: pow2_add)
    moreover have "pow2 52 * pow2 (?k - 52) \<le> rat_of_int m * pow2 (?k - 52)"
      unfolding p52 using m pow2_pos [of "?k - 52"] by (simp only: mult_le_cancel_right) simp
    moreover have "rat_of_int (M + 1) * pow2 E \<le> pow2 53 * pow2 E"
      unfolding p53 using M pow2_pos [of E] by (simp only: mult_le_cancel_right) simp
    ultimately show ?thesis unfolding r by linarith
  qed
qed


text \<open>The literals of the thresholds and of the default score, as doubles.\<close>

lemma literal_06: "literal 0.6 = of_int 5404319552844595 * pow2 (- 53)"
  by code_simp

lemma literal_04: "literal 0.4 = of_int (7205759403792793 + 1) * pow2 (- 54)"
  by code_simp

lemma literal_05: "literal 0.5 = 1 / 2"
  by code_simp

lemma literal_06_below: "literal 0.6 < 0.6"
  unfolding literal_06 by (simp add: pow2_def)

lemma literal_04_above: "0.4 < literal 0.4"
  unfolding literal_04 by (simp add: pow2_def)

text \<open>
  The double after the literal 0.6 is above 0.6 and the double before the literal 0.4 is
  below 0.4, so for a double the comparisons with the literals and with the decimal
  fractions agree.
\<close>

lemma double_above_06: "literal 0.6 < round53 q \<longleftrightarrow> 0.6 < round53 q"
proof
  assume a: "literal 0.6 < round53 q"
  have "round53 q \<le> of_int 5404319552844595 * pow2 (- 53)
      \<or> of_int (5404319552844595 + 1) * pow2 (- 53) \<le> round53 q"
    by (rule round53_gap) simp_all
  with a have "of_int (5404319552844595 + 1) * pow2 (- 53) \<le> round53 q"
    unfolding literal_06 by linarith
  moreover have "0.6 < rat_of_int (5404319552844595 + 1) * pow2 (- 53)"
    by (simp add: pow2_def)
  ultimately show "0.6 < round53 q" by linarith
next
  assume "0.6 < round53 q"
  with literal_06_below show "literal 0.6 < round53 q" by linarith
qed

lemma double_below_04: "round53 q < literal 0.4 \<longleftrightarrow> round53 q < 0.4"
proof
  assume a: "round53 q < literal 0.4"
  have "round53 q \<le> of_int 7205759403792793 * pow2 (- 54)
      \<or> of_int (7205759403792793 + 1) * pow2 (- 54) \<le> round53 q"
    by (rule round53_gap) simp_all
  with a have "round53 q \<le> of_int 7205759403792793 * pow2 (- 54)"
    unfolding literal_04 by linarith
  moreover have "rat_of_int 7205759403792793 * pow2 (- 54) < 0.4"
    by (simp add: pow2_def)
  ultimately show "round53 q < 0.4" by linarith
next
  assume "round53 q < 0.4"
  with literal_04_above show "round53 q < literal 0.4" by linarith
qed

text \<open>In the double model the returned score is a double and the label is its class.\<close>

lemma classify_f64_half: "classify_f64 (literal 0.5) = Neutral"
  by code_simp

lemma analyze_try_f64_label:
  "analyze_try_f64 t = Inr r \<Longrightarrow>
     sentiment r = classify_f64 (score r) \<and> (\<exists>q. score r = round53 q)"
  unfolding analyze_try_f64_def Let_def fdiv_def literal_def [of "0.5"]
  using classify_f64_half [unfolded literal_def]
  by (auto split: if_splits sum.splits prod.splits)

lemma analyze_sentiment_f64_label:
  "sentiment (analyze_sentiment_f64 t) = classify_f64 (score (analyze_sentiment_f64 t))
   \<and> (\<exists>q. score (analyze_sentiment_f64 t) = round53 q)"
proof (cases "falsy t")
  case True
  then show ?thesis
    using classify_f64_half by (auto simp: analyze_sentiment_f64_def literal_def)
next
  case False
  show ?thesis
  proof (cases "analyze_try_f64 t")
    case (Inl e)
    with False show ?thesis
      using classify_f64_half by (auto simp: analyze_sentiment_f64_def literal_def)
  next
    case (Inr r)
    with False analyze_try_f64_label [OF Inr] show ?thesis
      by (simp add: analyze_sentiment_f64_def)
  qed
qed

text \<open>The two models scan the same words: only the weights can differ, by rounding.\<close>

lemma word_count_score_word_f64:
  "word_count (score_word_f64 words acc iw) =
     word_count acc + (if sentiment_word (snd iw) then 1 else 0)"
  by (cases iw) (simp add: score_word_f64_def Let_def sentiment_word_def)

lemma word_count_foldl_f64:
  "word_count (foldl (score_word_f64 words) acc xs) =
     word_count acc + length (filter sentiment_word (map snd xs))"
  by (induction xs arbitrary: acc) (simp_all add: word_count_score_word_f64)

lemma word_count_scan_f64: "word_count (scan_f64 words) = word_count (scan words)"
  unfolding scan_f64_def word_count_scan by (simp add: word_count_foldl_f64)


text \<open>
  Evaluation of the double model in stages: cleaned text, tokens, totals, sum, quotient,
  label.
\<close>

lemma analyze_sentiment_f64_eval:
  assumes "cleaned s = c" and "s \<noteq> []" and "3 \<le> length c"
    and "split c = words" and "words \<noteq> []"
    and "scan_f64 words = acc" and "word_count acc \<noteq> 0"
    and "fadd (positive acc) (negative acc) = tot" and "tot \<noteq> 0"
    and "round53 (positive acc / tot) = sc" and "classify_f64 sc = lab"
    and "min (round53 (of_nat (word_count acc) / of_nat (length words))) (literal 1.0) = conf"
  shows "analyze_sentiment_f64 (Some s) =
     \<lparr>sentiment = lab, score = sc, confidence = conf, scores = Some acc\<rparr>"
proof -
  from assms(1) have c: "lower (preprocess_text (Some s)) = c"
    by (simp add: cleaned_def)
  from assms(2-) show ?thesis
    by (simp add: analyze_sentiment_f64_def falsy_def analyze_try_f64_def c Let_def fdiv_def)
qed

lemma example_three_two:
  "analyze_sentiment_f64 (Some ''good good good bad bad'') =
     \<lparr>sentiment = Neutral, score = 5404319552844595 / 9007199254740992,
      confidence = 1,
      scores = Some \<lparr>positive = 3, negative = 2, word_count = 5\<rparr>\<rparr>"
proof (rule analyze_sentiment_f64_eval)
  show "cleaned ''good good good bad bad'' = ''good good good bad bad''"
    by code_simp
  show "''good good good bad bad'' \<noteq> []" by simp
  show "3 \<le> length ''good good good bad bad''" by simp
  show "split ''good good good bad bad'' =
      [''good'', ''good'', ''good'', ''bad'', ''bad'']"
    by code_simp
  show "[''good'', ''good'', ''good'', ''bad'', ''bad''] \<noteq> []" by simp
  show "scan_f64 [''good'', ''good'', ''good'', ''bad'', ''bad''] =
      \<lparr>positive = 3, negative = 2, word_count = 5\<rparr>"
    by code_simp
  show "word_count \<lparr>positive = 3, negative = 2, word_count = 5\<rparr> \<noteq> 0"
    by simp
  have "fadd (3) (2) = 5"
    by code_simp
  then show "fadd (positive \<lparr>positive = 3, negative = 2, word_count = 5\<rparr>)
      (negative \<lparr>positive = 3, negative = 2, word_count = 5\<rparr>) = 5"
    by simp
  show "(5 :: rat) \<noteq> 0" by simp
  have "round53 ((3) / 5) = 5404319552844595 / 9007199254740992"
    by code_simp
  then show "round53 (positive \<lparr>positive = 3, negative = 2, word_count = 5\<rparr> / 5) =
      5404319552844595 / 9007199254740992"
    by simp
  show "classify_f64 (5404319552844595 / 9007199254740992) = Neutral"
    by code_simp
  have "min (round53 (rat_of_nat 5 / rat_of_nat 5)) (literal 1.0) = 1"
    by code_simp
  then show "min (round53 (rat_of_nat (word_count \<lparr>positive = 3, negative = 2, word_count = 5\<rparr>)
        / rat_of_nat (length [''good'', ''good'', ''good'', ''bad'', ''bad'']))) (literal 1.0) = 1"
    by simp
qed

lemma example_two_three:
  "analyze_sentiment_f64 (Some ''good good bad bad bad'') =
     \<lparr>sentiment = Neutral, score = 3602879701896397 / 9007199254740992,
      confidence = 1,
      scores = Some \<lparr>positive = 2, negative = 3, word_count = 5\<rparr>\<rparr>"
proof (rule analyze_sentiment_f64_eval)
  show "cleaned ''good good bad bad bad'' = ''good good bad bad bad''"
    by code_simp
  show "''good good bad bad bad'' \<noteq> []" by simp
  show "3 \<le> length ''good good bad bad bad''" by simp
  show "split ''good good bad bad bad'' =
      [''good'', ''good'', ''bad'', ''bad'', ''bad'']"
    by code_simp
  show "[''good'', ''good'', ''bad'', ''bad'', ''bad''] \<noteq> []" by simp
  show "scan_f64 [''good'', ''good'', ''bad'', ''bad'', ''bad''] =
      \<lparr>positive = 2, negative = 3, word_count = 5\<rparr>"
    by code_simp
  show "word_count \<lparr>positive = 2, negative = 3, word_count = 5\<rparr> \<noteq> 0"
    by simp
  have "fadd (2) (3) = 5"
    by code_simp
  then show "fadd (positive \<lparr>positive = 2, negative = 3, word_count = 5\<rparr>)
      (negative \<lparr>positive = 2, negative = 3, word_count = 5\<rparr>) = 5"
    by simp
  show "(5 :: rat) \<noteq> 0" by simp
  have "round53 ((2) / 5) = 3602879701896397 / 9007199254740992"
    by code_simp
  then show "round53 (positive \<lparr>positive = 2, negative = 3, word_count = 5\<rparr> / 5) =
      3602879701896397 / 9007199254740992"
    by simp
  show "classify_f64 (3602879701896397 / 9007199254740992) = Neutral"
    by code_simp
  have "min (round53 (rat_of_nat 5 / rat_of_nat 5)) (literal 1.0) = 1"
    by code_simp
  then show "min (round53 (rat_of_nat (word_count \<lparr>positive = 2, negative = 3, word_count = 5\<rparr>)
        / rat_of_nat (length [''good'', ''good'', ''bad'', ''bad'', ''bad'']))) (literal 1.0) = 1"
    by simp
qed

lemma example_below:
  "analyze_sentiment_f64 (Some ''quite good absolutely bad'') =
     \<lparr>sentiment = Negative, score = 7205759403792793 / 18014398509481984,
      confidence = 1 / 2,
      scores = Some \<lparr>positive = 5404319552844595 / 4503599627370496, negative = 8106479329266893 / 4503599627370496, word_count = 2\<rparr>\<rparr>"
proof (rule analyze_sentiment_f64_eval)
  show "cleaned ''quite good absolutely bad'' = ''quite good absolutely bad''"
    by code_simp
  show "''quite good absolutely bad'' \<noteq> []" by simp
  show "3 \<le> length ''quite good absolutely bad''" by simp
  show "split ''quite good absolutely bad'' =
      [''quite'', ''good'', ''absolutely'', ''bad'']"
    by code_simp
  show "[''quite'', ''good'', ''absolutely'', ''bad''] \<noteq> []" by simp
  show "scan_f64 [''quite'', ''good'', ''absolutely'', ''bad''] =
      \<lparr>positive = 5404319552844595 / 4503599627370496, negative = 8106479329266893 / 4503599627370496, word_count = 2\<rparr>"
    by code_simp
  show "word_count \<lparr>positive = 5404319552844595 / 4503599627370496, negative = 8106479329266893 / 4503599627370496, word_count = 2\<rparr> \<noteq> 0"
    by simp
  have "fadd (5404319552844595 / 4503599627370496) (8106479329266893 / 4503599627370496) = 3"
    by code_simp
  then show "fadd (positive \<lparr>positive = 5404319552844595 / 4503599627370496, negative = 8106479329266893 / 4503599627370496, word_count = 2\<rparr>)
      (negative \<lparr>positive = 5404319552844595 / 4503599627370496, negative = 8106479329266893 / 4503599627370496, word_count = 2\<rparr>) = 3"
    by simp
  show "(3 :: rat) \<noteq> 0" by simp
  have "round53 ((5404319552844595 / 4503599627370496) / 3) = 7205759403792793 / 18014398509481984"
    by code_simp
  then show "round53 (positive \<lparr>positive = 5404319552844595 / 4503599627370496, negative = 8106479329266893 / 4503599627370496, word_count = 2\<rparr> / 3) =
      7205759403792793 / 18014398509481984"
    by simp
  show "classify_f64 (7205759403792793 / 18014398509481984) = Negative"
    by code_simp
  have "min (round53 (rat_of_nat 2 / rat_of_nat 4)) (literal 1.0) = 1 / 2"
    by code_simp
  then show "min (round53 (rat_of_nat (word_count \<lparr>positive = 5404319552844595 / 4503599627370496, negative = 8106479329266893 / 4503599627370496, word_count = 2\<rparr>)
        / rat_of_nat (length [''quite'', ''good'', ''absolutely'', ''bad'']))) (literal 1.0) = 1 / 2"
    by simp
qed

lemma example_above:
  "analyze_sentiment_f64 (Some ''good completely good absolutely bad'') =
     \<lparr>sentiment = Positive, score = 1351079888211149 / 2251799813685248,
      confidence = 5404319552844595 / 9007199254740992,
      scores = Some \<lparr>positive = 3039929748475085 / 1125899906842624, negative = 8106479329266893 / 4503599627370496, word_count = 3\<rparr>\<rparr>"
proof (rule analyze_sentiment_f64_eval)
  show "cleaned ''good completely good absolutely bad'' = ''good completely good absolutely bad''"
    by code_simp
  show "''good completely good absolutely bad'' \<noteq> []" by simp
  show "3 \<le> length ''good completely good absolutely bad''" by simp
  show "split ''good completely good absolutely bad'' =
      [''good'', ''completely'', ''good'', ''absolutely'', ''bad'']"
    by code_simp
  show "[''good'', ''completely'', ''good'', ''absolutely'', ''bad''] \<noteq> []" by simp
  show "scan_f64 [''good'', ''completely'', ''good'', ''absolutely'', ''bad''] =
      \<lparr>positive = 3039929748475085 / 1125899906842624, negative = 8106479329266893 / 4503599627370496, word_count = 3\<rparr>"
    by code_simp
  show "word_count \<lparr>positive = 3039929748475085 / 1125899906842624, negative = 8106479329266893 / 4503599627370496, word_count = 3\<rparr> \<noteq> 0"
    by simp
  have "fadd (3039929748475085 / 1125899906842624) (8106479329266893 / 4503599627370496) = 9 / 2"
    by code_simp
  then show "fadd (positive \<lparr>positive = 3039929748475085 / 1125899906842624, negative = 8106479329266893 / 4503599627370496, word_count = 3\<rparr>)
      (negative \<lparr>positive = 3039929748475085 / 1125899906842624, negative = 8106479329266893 / 4503599627370496, word_count = 3\<rparr>) = 9 / 2"
    by simp
  show "(9 / 2 :: rat) \<noteq> 0" by simp
  have "round53 ((3039929748475085 / 1125899906842624) / (9 / 2)) = 1351079888211149 / 2251799813685248"
    by code_simp
  then show "round53 (positive \<lparr>positive = 3039929748475085 / 1125899906842624, negative = 8106479329266893 / 4503599627370496, word_count = 3\<rparr> / (9 / 2)) =
      1351079888211149 / 2251799813685248"
    by simp
  show "classify_f64 (1351079888211149 / 2251799813685248) = Positive"
    by code_simp
  have "min (round53 (rat_of_nat 3 / rat_of_nat 5)) (literal 1.0) = 5404319552844595 / 9007199254740992"
    by code_simp
  then show "min (round53 (rat_of_nat (word_count \<lparr>positive = 3039929748475085 / 1125899906842624, negative = 8106479329266893 / 4503599627370496, word_count = 3\<rparr>)
        / rat_of_nat (length [''good'', ''completely'', ''good'', ''absolutely'', ''bad'']))) (literal 1.0) = 5404319552844595 / 9007199254740992"
    by simp
qed

text \<open>
  On the example texts of the claims about weights the double model returns the labels of
  the exact model.
\<close>

lemma example_label_f64_mixed:
  "sentiment (analyze_sentiment_f64 (Some (''bra bra d'' @ [a_ring] @ ''lig''))) = Positive"
  by code_simp

lemma example_label_f64_negated:
  "sentiment (analyze_sentiment_f64 (Some ''inte bra'')) = Negative"
  by code_simp

lemma example_label_f64_intensified:
  "sentiment (analyze_sentiment_f64 (Some ''mycket bra'')) = Positive"
  by code_simp


section \<open>Claims about the scorer\<close>

text \<open>
  C1. When the cleaned, lowercased text has at least three characters and one of its
  tokens is a positive or a negative word, the result carries the totals of the scan, the
  score is the positive weight divided by the sum of both weights (which is not zero), and
  the confidence is the number of matched words divided by the number of tokens, capped at
  1. For the text "bra bra d\<aa>lig" the score is 2/3 and the label is positive.
\<close>

theorem analyze_score_confidence:
  "(\<forall>text.
      3 \<le> length (cleaned text) \<and> (\<exists>w\<in>set (split (cleaned text)). sentiment_word w) \<longrightarrow>
      (let words = split (cleaned text); acc = scan words; r = analyze_sentiment (Some text)
       in scores r = Some acc \<and> positive acc + negative acc \<noteq> 0
          \<and> score r = positive acc / (positive acc + negative acc)
          \<and> confidence r = min (of_nat (word_count acc) / of_nat (length words)) 1.0))
   \<and> score (analyze_sentiment (Some (''bra bra d'' @ [a_ring] @ ''lig''))) = 2 / 3
   \<and> sentiment (analyze_sentiment (Some (''bra bra d'' @ [a_ring] @ ''lig''))) = Positive"
proof (intro conjI allI impI)
  fix t
  assume h: "3 \<le> length (cleaned t) \<and> (\<exists>w\<in>set (split (cleaned t)). sentiment_word w)"
  let ?words = "split (cleaned t)"
  from h have ne: "t \<noteq> []" by (auto simp: cleaned_Nil)
  from h have "filter sentiment_word ?words \<noteq> []" by (auto simp: filter_empty_conv)
  then have wc: "0 < word_count (scan ?words)" by (simp add: word_count_scan)
  with scan_weight [of ?words] have tot: "positive (scan ?words) + negative (scan ?words) \<noteq> 0"
    by auto
  from h wc tot show "let words = split (cleaned t); acc = scan words;
        r = analyze_sentiment (Some t)
      in scores r = Some acc \<and> positive acc + negative acc \<noteq> 0
         \<and> score r = positive acc / (positive acc + negative acc)
         \<and> confidence r = min (of_nat (word_count acc) / of_nat (length words)) 1.0"
    by (simp add: analyze_sentiment_unfold [OF ne] Let_def)
next
  show "score (analyze_sentiment (Some (''bra bra d'' @ [a_ring] @ ''lig''))) = 2 / 3"
    by code_simp
next
  show "sentiment (analyze_sentiment (Some (''bra bra d'' @ [a_ring] @ ''lig''))) = Positive"
    by code_simp
qed

theorem analyze_score_confidence_witness:
  "3 \<le> length (cleaned ''great food but slow service'')
   \<and> (\<exists>w\<in>set (split (cleaned ''great food but slow service'')). sentiment_word w)
   \<and> scores (analyze_sentiment (Some ''great food but slow service''))
       = Some \<lparr>positive = 1, negative = 1, word_count = 2\<rparr>
   \<and> score (analyze_sentiment (Some ''great food but slow service'')) = 1 / 2
   \<and> confidence (analyze_sentiment (Some ''great food but slow service'')) = 2 / 5"
proof -
  have h: "3 \<le> length (cleaned ''great food but slow service'')
     \<and> (\<exists>w\<in>set (split (cleaned ''great food but slow service'')). sentiment_word w)"
    by code_simp
  have w: "split (cleaned ''great food but slow service'')
      = [''great'', ''food'', ''but'', ''slow'', ''service'']"
    by code_simp
  have s: "scan [''great'', ''food'', ''but'', ''slow'', ''service'']
      = \<lparr>positive = 1, negative = 1, word_count = 2\<rparr>"
    by code_simp
  from analyze_score_confidence
  have "3 \<le> length (cleaned ''great food but slow service'')
       \<and> (\<exists>w\<in>set (split (cleaned ''great food but slow service'')). sentiment_word w) \<longrightarrow>
      (let words = split (cleaned ''great food but slow service''); acc = scan words;
           r = analyze_sentiment (Some ''great food but slow service'')
       in scores r = Some acc \<and> positive acc + negative acc \<noteq> 0
          \<and> score r = positive acc / (positive acc + negative acc)
          \<and> confidence r = min (of_nat (word_count acc) / of_nat (length words)) 1.0)"
    by blast
  with h show ?thesis
    by (simp add: w s Let_def)
qed


text \<open>
  C2. In double precision, as the source computes: for every input, also \<^verbatim>\<open>None\<close> and
  the empty string, the label of the result is fixed by its score. A score above 0.6 is
  positive, a score below 0.4 is negative, and a score from 0.4 to 0.6 is neutral, whether
  the bounds are read as the decimal fractions or as the doubles that the literals
  \<^verbatim>\<open>0.6\<close> and \<^verbatim>\<open>0.4\<close> denote: no double lies between a literal and its fraction. A score
  equal to a literal is neutral: three positive and two negative words give the quotient
  \<^verbatim>\<open>3.0 / 5.0\<close>, which is the literal \<^verbatim>\<open>0.6\<close>, and two against three give the literal
  \<^verbatim>\<open>0.4\<close>. A quotient that rounds to the double next to a literal is outside the
  interval: \<^verbatim>\<open>1.2 / 3.0\<close> is below 0.4 and negative, \<^verbatim>\<open>2.7 / 4.5\<close> is above 0.6 and
  positive.
\<close>

theorem sentiment_thresholds:
  "(\<forall>t. let r = analyze_sentiment_f64 t in
      (0.6 < score r \<longrightarrow> sentiment r = Positive)
      \<and> (score r < 0.4 \<longrightarrow> sentiment r = Negative)
      \<and> (0.4 \<le> score r \<and> score r \<le> 0.6 \<longrightarrow> sentiment r = Neutral)
      \<and> (literal 0.6 < score r \<longrightarrow> sentiment r = Positive)
      \<and> (score r < literal 0.4 \<longrightarrow> sentiment r = Negative)
      \<and> (literal 0.4 \<le> score r \<and> score r \<le> literal 0.6 \<longrightarrow> sentiment r = Neutral))
   \<and> 0.4 < literal 0.4 \<and> literal 0.4 < literal 0.6 \<and> literal 0.6 < 0.6
   \<and> score (analyze_sentiment_f64 (Some ''good good good bad bad'')) = literal 0.6
   \<and> sentiment (analyze_sentiment_f64 (Some ''good good good bad bad'')) = Neutral
   \<and> score (analyze_sentiment_f64 (Some ''good good bad bad bad'')) = literal 0.4
   \<and> sentiment (analyze_sentiment_f64 (Some ''good good bad bad bad'')) = Neutral
   \<and> score (analyze_sentiment_f64 (Some ''quite good absolutely bad''))
       = 7205759403792793 / 2 ^ 54
   \<and> sentiment (analyze_sentiment_f64 (Some ''quite good absolutely bad'')) = Negative
   \<and> score (analyze_sentiment_f64 (Some ''good completely good absolutely bad''))
       = 5404319552844596 / 2 ^ 53
   \<and> sentiment (analyze_sentiment_f64 (Some ''good completely good absolutely bad''))
       = Positive"
proof (intro conjI allI)
  fix t
  let ?r = "analyze_sentiment_f64 t"
  from analyze_sentiment_f64_label [of t] obtain q
    where l: "sentiment ?r = classify_f64 (score ?r)" and q: "score ?r = round53 q"
    by blast
  have hi: "literal 0.6 < score ?r \<longleftrightarrow> 0.6 < score ?r"
    unfolding q by (rule double_above_06)
  have lo: "score ?r < literal 0.4 \<longleftrightarrow> score ?r < 0.4"
    unfolding q by (rule double_below_04)
  have lits: "literal 0.4 < literal 0.6"
    using literal_04 literal_06 by (simp add: pow2_def)
  have a: "literal 0.6 < score ?r \<longrightarrow> sentiment ?r = Positive"
    by (simp add: l classify_f64_def)
  have b: "score ?r < literal 0.4 \<longrightarrow> sentiment ?r = Negative"
    using lits by (auto simp: l classify_f64_def)
  have c: "literal 0.4 \<le> score ?r \<and> score ?r \<le> literal 0.6 \<longrightarrow> sentiment ?r = Neutral"
    by (auto simp: l classify_f64_def)
  have a': "0.6 < score ?r \<longrightarrow> sentiment ?r = Positive"
    using a hi by blast
  have b': "score ?r < 0.4 \<longrightarrow> sentiment ?r = Negative"
    using b lo by blast
  have c': "0.4 \<le> score ?r \<and> score ?r \<le> 0.6 \<longrightarrow> sentiment ?r = Neutral"
  proof
    assume h: "0.4 \<le> score ?r \<and> score ?r \<le> 0.6"
    then have "\<not> score ?r < 0.4" and "\<not> 0.6 < score ?r" by simp_all
    with hi lo have "\<not> score ?r < literal 0.4" and "\<not> literal 0.6 < score ?r"
      by blast+
    then have "literal 0.4 \<le> score ?r \<and> score ?r \<le> literal 0.6"
      by (simp add: not_less)
    with c show "sentiment ?r = Neutral" by blast
  qed
  from a b c a' b' c' show "let r = analyze_sentiment_f64 t in
      (0.6 < score r \<longrightarrow> sentiment r = Positive)
      \<and> (score r < 0.4 \<longrightarrow> sentiment r = Negative)
      \<and> (0.4 \<le> score r \<and> score r \<le> 0.6 \<longrightarrow> sentiment r = Neutral)
      \<and> (literal 0.6 < score r \<longrightarrow> sentiment r = Positive)
      \<and> (score r < literal 0.4 \<longrightarrow> sentiment r = Negative)
      \<and> (literal 0.4 \<le> score r \<and> score r \<le> literal 0.6 \<longrightarrow> sentiment r = Neutral)"
    unfolding Let_def by blast
next
  show "0.4 < literal 0.4" by (rule literal_04_above)
next
  show "literal 0.4 < literal 0.6" using literal_04 literal_06 by (simp add: pow2_def)
next
  show "literal 0.6 < 0.6" by (rule literal_06_below)
next
  show "score (analyze_sentiment_f64 (Some ''good good good bad bad'')) = literal 0.6"
    unfolding literal_06 by (simp add: example_three_two pow2_def)
next
  show "sentiment (analyze_sentiment_f64 (Some ''good good good bad bad'')) = Neutral"
    by (simp add: example_three_two)
next
  show "score (analyze_sentiment_f64 (Some ''good good bad bad bad'')) = literal 0.4"
    unfolding literal_04 by (simp add: example_two_three pow2_def)
next
  show "sentiment (analyze_sentiment_f64 (Some ''good good bad bad bad'')) = Neutral"
    by (simp add: example_two_three)
next
  show "score (analyze_sentiment_f64 (Some ''quite good absolutely bad''))
       = 7205759403792793 / 2 ^ 54"
    by (simp add: example_below)
next
  show "sentiment (analyze_sentiment_f64 (Some ''quite good absolutely bad'')) = Negative"
    by (simp add: example_below)
next
  show "score (analyze_sentiment_f64 (Some ''good completely good absolutely bad''))
       = 5404319552844596 / 2 ^ 53"
    by (simp add: example_above)
next
  show "sentiment (analyze_sentiment_f64 (Some ''good completely good absolutely bad''))
       = Positive"
    by (simp add: example_above)
qed

theorem sentiment_thresholds_witness:
  "(0.6 < score (analyze_sentiment_f64 (Some ''good completely good absolutely bad''))
      \<and> sentiment (analyze_sentiment_f64 (Some ''good completely good absolutely bad''))
          = Positive)
   \<and> (score (analyze_sentiment_f64 (Some ''quite good absolutely bad'')) < 0.4
      \<and> sentiment (analyze_sentiment_f64 (Some ''quite good absolutely bad'')) = Negative)
   \<and> (0.4 \<le> score (analyze_sentiment_f64 (Some ''good good good bad bad''))
      \<and> score (analyze_sentiment_f64 (Some ''good good good bad bad'')) \<le> 0.6
      \<and> sentiment (analyze_sentiment_f64 (Some ''good good good bad bad'')) = Neutral)"
proof -
  have all: "\<And>t. let r = analyze_sentiment_f64 t in
      (0.6 < score r \<longrightarrow> sentiment r = Positive)
      \<and> (score r < 0.4 \<longrightarrow> sentiment r = Negative)
      \<and> (0.4 \<le> score r \<and> score r \<le> 0.6 \<longrightarrow> sentiment r = Neutral)
      \<and> (literal 0.6 < score r \<longrightarrow> sentiment r = Positive)
      \<and> (score r < literal 0.4 \<longrightarrow> sentiment r = Negative)
      \<and> (literal 0.4 \<le> score r \<and> score r \<le> literal 0.6 \<longrightarrow> sentiment r = Neutral)"
    using sentiment_thresholds by blast
  from all [of "Some ''good completely good absolutely bad''"]
    all [of "Some ''quite good absolutely bad''"]
    all [of "Some ''good good good bad bad''"]
  show ?thesis
    by (simp add: Let_def example_above example_below example_three_two)
qed

text \<open>
  C3. In the loop body, a positive word whose previous token, or the token before that, is
  a negation word adds its weight (1.0 times the intensity) to the negative total and
  leaves the positive total as it was. The text "inte bra" gets the label negative, score 0,
  negative weight 1 and positive weight 0.
\<close>

theorem negation_flips_positive_word:
  "(\<forall>words i acc.
      i < length words \<and> words ! i \<in> set positive_words
      \<and> ((0 < i \<and> words ! (i - 1) \<in> set negation_words)
          \<or> (1 < i \<and> words ! (i - 2) \<in> set negation_words)) \<longrightarrow>
      score_word words acc (i, words ! i) =
        acc\<lparr>negative := negative acc + 1.0 * intensity_at words i,
            word_count := word_count acc + 1\<rparr>
      \<and> positive (score_word words acc (i, words ! i)) = positive acc)
   \<and> analyze_sentiment (Some ''inte bra'') =
       \<lparr>sentiment = Negative, score = 0, confidence = 1 / 2,
        scores = Some \<lparr>positive = 0, negative = 1.0, word_count = 1\<rparr>\<rparr>"
proof (intro conjI allI impI)
  fix words :: "string list" and i acc
  assume h: "i < length words \<and> words ! i \<in> set positive_words
      \<and> ((0 < i \<and> words ! (i - 1) \<in> set negation_words)
          \<or> (1 < i \<and> words ! (i - 2) \<in> set negation_words))"
  then have n: "negated_at words i" by (auto simp: negated_at_def)
  from h n show "score_word words acc (i, words ! i) =
        acc\<lparr>negative := negative acc + 1.0 * intensity_at words i,
            word_count := word_count acc + 1\<rparr>"
    by (simp add: score_word_def Let_def)
  from h n show "positive (score_word words acc (i, words ! i)) = positive acc"
    by (simp add: score_word_def Let_def)
next
  show "analyze_sentiment (Some ''inte bra'') =
       \<lparr>sentiment = Negative, score = 0, confidence = 1 / 2,
        scores = Some \<lparr>positive = 0, negative = 1.0, word_count = 1\<rparr>\<rparr>"
    by code_simp
qed

theorem negation_flips_positive_word_witness:
  "2 < length [''never'', ''really'', ''good'']
   \<and> [''never'', ''really'', ''good''] ! 2 \<in> set positive_words
   \<and> [''never'', ''really'', ''good''] ! (2 - 2) \<in> set negation_words
   \<and> score_word [''never'', ''really'', ''good'']
        \<lparr>positive = 0, negative = 0, word_count = 0\<rparr> (2, ''good'')
      = \<lparr>positive = 0, negative = 1.4, word_count = 1\<rparr>"
proof -
  have h: "2 < length [''never'', ''really'', ''good'']
     \<and> [''never'', ''really'', ''good''] ! 2 \<in> set positive_words
     \<and> ((0 < (2::nat) \<and> [''never'', ''really'', ''good''] ! (2 - 1) \<in> set negation_words)
         \<or> (1 < (2::nat) \<and> [''never'', ''really'', ''good''] ! (2 - 2) \<in> set negation_words))"
    by code_simp
  have i: "intensity_at [''never'', ''really'', ''good''] 2 = 1.4" by code_simp
  have m: "2 < length [''never'', ''really'', ''good'']
     \<and> [''never'', ''really'', ''good''] ! 2 \<in> set positive_words
     \<and> [''never'', ''really'', ''good''] ! (2 - 2) \<in> set negation_words"
    by code_simp
  from negation_flips_positive_word
  have "2 < length [''never'', ''really'', ''good'']
     \<and> [''never'', ''really'', ''good''] ! 2 \<in> set positive_words
     \<and> ((0 < (2::nat) \<and> [''never'', ''really'', ''good''] ! (2 - 1) \<in> set negation_words)
         \<or> (1 < (2::nat) \<and> [''never'', ''really'', ''good''] ! (2 - 2) \<in> set negation_words))
     \<longrightarrow> score_word [''never'', ''really'', ''good'']
          \<lparr>positive = 0, negative = 0, word_count = 0\<rparr>
          (2, [''never'', ''really'', ''good''] ! 2)
        = \<lparr>positive = 0, negative = 0, word_count = 0\<rparr>
            \<lparr>negative := negative \<lparr>positive = 0, negative = 0, word_count = 0\<rparr>
                + 1.0 * intensity_at [''never'', ''really'', ''good''] 2,
             word_count := word_count \<lparr>positive = 0, negative = 0, word_count = 0\<rparr> + 1\<rparr>
       \<and> positive (score_word [''never'', ''really'', ''good'']
          \<lparr>positive = 0, negative = 0, word_count = 0\<rparr>
          (2, [''never'', ''really'', ''good''] ! 2)) = positive \<lparr>positive = 0, negative = 0, word_count = 0\<rparr>"
    by blast
  with h have "score_word [''never'', ''really'', ''good'']
          \<lparr>positive = 0, negative = 0, word_count = 0\<rparr>
          (2, [''never'', ''really'', ''good''] ! 2)
        = \<lparr>positive = 0, negative = 0, word_count = 0\<rparr>
            \<lparr>negative := negative \<lparr>positive = 0, negative = 0, word_count = 0\<rparr>
                + 1.0 * intensity_at [''never'', ''really'', ''good''] 2,
             word_count := word_count \<lparr>positive = 0, negative = 0, word_count = 0\<rparr> + 1\<rparr>"
    by blast
  then have "score_word [''never'', ''really'', ''good'']
        \<lparr>positive = 0, negative = 0, word_count = 0\<rparr> (2, ''good'')
      = \<lparr>positive = 0, negative = 1.4, word_count = 1\<rparr>"
    by (simp add: i)
  with m show ?thesis by blast
qed

text \<open>
  C4. When the token before a sentiment word is an intensifier with factor \<open>f\<close>, the
  intensity of the word is \<open>f\<close>, which is above 1, and the word adds \<open>1.0 * f\<close> to the
  total that its own polarity and the negation check select: the intensifier is no
  negation word, so the negation check only looks at the token two places back. The text
  "mycket bra" is positive, and its positive weight is 1.5 times that of "bra".
\<close>

theorem intensifier_scales_weight:
  "(\<forall>words i acc f.
      0 < i \<and> i < length words \<and> intensifier (words ! (i - 1)) = Some f
      \<and> sentiment_word (words ! i) \<longrightarrow>
      1 < f \<and> intensity_at words i = f
      \<and> negated_at words i = (1 < i \<and> words ! (i - 2) \<in> set negation_words)
      \<and> score_word words acc (i, words ! i) =
          (if (words ! i \<in> set positive_words) \<noteq> negated_at words i
           then acc\<lparr>positive := positive acc + 1.0 * f, word_count := word_count acc + 1\<rparr>
           else acc\<lparr>negative := negative acc + 1.0 * f, word_count := word_count acc + 1\<rparr>))
   \<and> sentiment (analyze_sentiment (Some ''mycket bra'')) = Positive
   \<and> scores (analyze_sentiment (Some ''bra'')) \<noteq> None
   \<and> map_option positive (scores (analyze_sentiment (Some ''mycket bra'')))
       = map_option (\<lambda>b. 1.5 * positive b) (scores (analyze_sentiment (Some ''bra'')))"
proof (intro conjI allI impI)
  fix words :: "string list" and i acc f
  assume h: "0 < i \<and> i < length words \<and> intensifier (words ! (i - 1)) = Some f
      \<and> sentiment_word (words ! i)"
  from h show "1 < f" by (auto dest: intensifier_gt_one)
  from h show int: "intensity_at words i = f" by (simp add: intensity_at_def)
  from h have "words ! (i - 1) \<notin> set negation_words"
    by (auto dest: negation_not_intensifier)
  then show "negated_at words i = (1 < i \<and> words ! (i - 2) \<in> set negation_words)"
    by (simp add: negated_at_def)
  from h int show "score_word words acc (i, words ! i) =
          (if (words ! i \<in> set positive_words) \<noteq> negated_at words i
           then acc\<lparr>positive := positive acc + 1.0 * f, word_count := word_count acc + 1\<rparr>
           else acc\<lparr>negative := negative acc + 1.0 * f, word_count := word_count acc + 1\<rparr>)"
    by (auto simp: score_word_def Let_def sentiment_word_def)
next
  show "sentiment (analyze_sentiment (Some ''mycket bra'')) = Positive" by code_simp
next
  show "scores (analyze_sentiment (Some ''bra'')) \<noteq> None" by code_simp
next
  have a: "scores (analyze_sentiment (Some ''mycket bra''))
      = Some \<lparr>positive = 1.5, negative = 0, word_count = 1\<rparr>" by code_simp
  have b: "scores (analyze_sentiment (Some ''bra''))
      = Some \<lparr>positive = 1, negative = 0, word_count = 1\<rparr>" by code_simp
  show "map_option positive (scores (analyze_sentiment (Some ''mycket bra'')))
       = map_option (\<lambda>b. 1.5 * positive b) (scores (analyze_sentiment (Some ''bra'')))"
    by (simp add: a b)
qed

theorem intensifier_scales_weight_witness:
  "0 < (1::nat) \<and> 1 < length [''extremely'', ''slow'']
   \<and> intensifier ([''extremely'', ''slow''] ! (1 - 1)) = Some 2.0
   \<and> sentiment_word ([''extremely'', ''slow''] ! 1)
   \<and> score_word [''extremely'', ''slow''] \<lparr>positive = 0, negative = 0, word_count = 0\<rparr>
        (1, ''slow'')
      = \<lparr>positive = 0, negative = 2.0, word_count = 1\<rparr>"
proof -
  let ?ws = "[''extremely'', ''slow'']"
  let ?z = "\<lparr>positive = 0, negative = 0, word_count = 0\<rparr>"
  have h: "0 < (1::nat) \<and> 1 < length ?ws \<and> intensifier (?ws ! (1 - 1)) = Some 2.0
     \<and> sentiment_word (?ws ! 1)"
    by code_simp
  have p: "?ws ! 1 \<notin> set positive_words" by code_simp
  from intensifier_scales_weight
  have "0 < (1::nat) \<and> 1 < length ?ws \<and> intensifier (?ws ! (1 - 1)) = Some 2.0
      \<and> sentiment_word (?ws ! 1) \<longrightarrow>
      1 < (2.0::rat) \<and> intensity_at ?ws 1 = 2.0
      \<and> negated_at ?ws 1 = (1 < (1::nat) \<and> ?ws ! (1 - 2) \<in> set negation_words)
      \<and> score_word ?ws ?z (1, ?ws ! 1) =
          (if (?ws ! 1 \<in> set positive_words) \<noteq> negated_at ?ws 1
           then ?z\<lparr>positive := positive ?z + 1.0 * 2.0, word_count := word_count ?z + 1\<rparr>
           else ?z\<lparr>negative := negative ?z + 1.0 * 2.0, word_count := word_count ?z + 1\<rparr>)"
    by blast
  with h have n: "negated_at ?ws 1 = (1 < (1::nat) \<and> ?ws ! (1 - 2) \<in> set negation_words)"
    and s: "score_word ?ws ?z (1, ?ws ! 1) =
          (if (?ws ! 1 \<in> set positive_words) \<noteq> negated_at ?ws 1
           then ?z\<lparr>positive := positive ?z + 1.0 * 2.0, word_count := word_count ?z + 1\<rparr>
           else ?z\<lparr>negative := negative ?z + 1.0 * 2.0, word_count := word_count ?z + 1\<rparr>)"
    by blast+
  from n have n': "\<not> negated_at ?ws 1" by simp
  from s p n' have "score_word ?ws ?z (1, ''slow'')
      = \<lparr>positive = 0, negative = 2.0, word_count = 1\<rparr>"
    by simp
  with h show ?thesis by blast
qed

text \<open>
  C5. The three degenerate inputs. \<^verbatim>\<open>None\<close> and the empty string give neutral, score
  0.5, confidence 0.0. A non-empty text whose cleaned form has fewer than three characters
  gives neutral, 0.5, 0.1. A non-empty text whose cleaned form has at least three
  characters and no token in the positive or negative words gives neutral, 0.5, 0.2 and
  the three raw totals zero.
\<close>

theorem degenerate_inputs:
  "analyze_sentiment None =
     \<lparr>sentiment = Neutral, score = 0.5, confidence = 0.0, scores = None\<rparr>
   \<and> analyze_sentiment (Some []) =
     \<lparr>sentiment = Neutral, score = 0.5, confidence = 0.0, scores = None\<rparr>
   \<and> (\<forall>t. t \<noteq> [] \<and> length (cleaned t) < 3 \<longrightarrow>
         analyze_sentiment (Some t) =
           \<lparr>sentiment = Neutral, score = 0.5, confidence = 0.1, scores = None\<rparr>)
   \<and> (\<forall>t. t \<noteq> [] \<and> 3 \<le> length (cleaned t)
          \<and> (\<forall>w\<in>set (split (cleaned t)). \<not> sentiment_word w) \<longrightarrow>
         analyze_sentiment (Some t) =
           \<lparr>sentiment = Neutral, score = 0.5, confidence = 0.2,
            scores = Some \<lparr>positive = 0, negative = 0, word_count = 0\<rparr>\<rparr>)"
proof (intro conjI allI impI)
  show "analyze_sentiment None =
     \<lparr>sentiment = Neutral, score = 0.5, confidence = 0.0, scores = None\<rparr>"
    by (rule analyze_sentiment_falsy)
next
  show "analyze_sentiment (Some []) =
     \<lparr>sentiment = Neutral, score = 0.5, confidence = 0.0, scores = None\<rparr>"
    by (rule analyze_sentiment_falsy)
next
  fix t :: string
  assume "t \<noteq> [] \<and> length (cleaned t) < 3"
  then show "analyze_sentiment (Some t) =
           \<lparr>sentiment = Neutral, score = 0.5, confidence = 0.1, scores = None\<rparr>"
    by (simp add: analyze_sentiment_unfold)
next
  fix t :: string
  assume h: "t \<noteq> [] \<and> 3 \<le> length (cleaned t)
          \<and> (\<forall>w\<in>set (split (cleaned t)). \<not> sentiment_word w)"
  then have "filter sentiment_word (split (cleaned t)) = []"
    by (simp add: filter_empty_conv)
  then have "word_count (scan (split (cleaned t))) = 0"
    by (simp add: word_count_scan)
  with h show "analyze_sentiment (Some t) =
           \<lparr>sentiment = Neutral, score = 0.5, confidence = 0.2,
            scores = Some \<lparr>positive = 0, negative = 0, word_count = 0\<rparr>\<rparr>"
    by (simp add: analyze_sentiment_unfold)
qed

theorem degenerate_inputs_witness:
  "(''ok'' \<noteq> [] \<and> length (cleaned ''ok'') < 3
     \<and> analyze_sentiment (Some ''ok'') =
         \<lparr>sentiment = Neutral, score = 0.5, confidence = 0.1, scores = None\<rparr>)
   \<and> (''the parcel came'' \<noteq> [] \<and> 3 \<le> length (cleaned ''the parcel came'')
     \<and> split (cleaned ''the parcel came'') = [''the'', ''parcel'', ''came'']
     \<and> \<not> sentiment_word ''the'' \<and> \<not> sentiment_word ''parcel''
     \<and> \<not> sentiment_word ''came''
     \<and> analyze_sentiment (Some ''the parcel came'') =
         \<lparr>sentiment = Neutral, score = 0.5, confidence = 0.2,
          scores = Some \<lparr>positive = 0, negative = 0, word_count = 0\<rparr>\<rparr>)"
proof -
  have a: "''ok'' \<noteq> [] \<and> length (cleaned ''ok'') < 3" by code_simp
  have w: "split (cleaned ''the parcel came'') = [''the'', ''parcel'', ''came'']"
    by code_simp
  have n: "\<not> sentiment_word ''the'' \<and> \<not> sentiment_word ''parcel''
      \<and> \<not> sentiment_word ''came''"
    by code_simp
  have l: "''the parcel came'' \<noteq> [] \<and> 3 \<le> length (cleaned ''the parcel came'')"
    by code_simp
  from w n l have b: "''the parcel came'' \<noteq> [] \<and> 3 \<le> length (cleaned ''the parcel came'')
     \<and> (\<forall>w\<in>set (split (cleaned ''the parcel came'')). \<not> sentiment_word w)"
    by simp
  from degenerate_inputs
  have c: "''ok'' \<noteq> [] \<and> length (cleaned ''ok'') < 3 \<longrightarrow>
         analyze_sentiment (Some ''ok'') =
           \<lparr>sentiment = Neutral, score = 0.5, confidence = 0.1, scores = None\<rparr>"
    and d: "''the parcel came'' \<noteq> [] \<and> 3 \<le> length (cleaned ''the parcel came'')
          \<and> (\<forall>w\<in>set (split (cleaned ''the parcel came'')). \<not> sentiment_word w) \<longrightarrow>
         analyze_sentiment (Some ''the parcel came'') =
           \<lparr>sentiment = Neutral, score = 0.5, confidence = 0.2,
            scores = Some \<lparr>positive = 0, negative = 0, word_count = 0\<rparr>\<rparr>"
    by blast+
  from a b c d w n show ?thesis by blast
qed

text \<open>
  C8. The negation check and the intensity are computed separately over the two preceding
  tokens. When one of them is a negation word and the other an intensifier with factor
  \<open>f\<close>, in either order, the word at \<open>i\<close> is negated and has intensity \<open>f\<close>: a positive
  word adds \<open>f\<close> to the negative total, a negative word adds \<open>f\<close> to the positive total.
  In "mycket inte bra" the word "bra" adds 1.5 to the negative weight.
\<close>

theorem negation_and_intensity_independent:
  "(\<forall>words i f.
      1 < i \<and> i < length words
      \<and> ((words ! (i - 1) \<in> set negation_words \<and> intensifier (words ! (i - 2)) = Some f)
          \<or> (intensifier (words ! (i - 1)) = Some f \<and> words ! (i - 2) \<in> set negation_words))
      \<longrightarrow>
      negated_at words i \<and> intensity_at words i = f
      \<and> (\<forall>acc. words ! i \<in> set positive_words \<longrightarrow>
            score_word words acc (i, words ! i) =
              acc\<lparr>negative := negative acc + 1.0 * f, word_count := word_count acc + 1\<rparr>)
      \<and> (\<forall>acc. words ! i \<notin> set positive_words \<and> words ! i \<in> set negative_words \<longrightarrow>
            score_word words acc (i, words ! i) =
              acc\<lparr>positive := positive acc + 1.0 * f, word_count := word_count acc + 1\<rparr>))
   \<and> split (cleaned ''mycket inte bra'') = [''mycket'', ''inte'', ''bra'']
   \<and> score_word [''mycket'', ''inte'', ''bra''] \<lparr>positive = 0, negative = 0, word_count = 0\<rparr>
        (2, ''bra'')
       = \<lparr>positive = 0, negative = 1.5, word_count = 1\<rparr>
   \<and> scores (analyze_sentiment (Some ''mycket inte bra''))
       = Some \<lparr>positive = 0, negative = 1.5, word_count = 1\<rparr>"
proof (intro conjI allI impI)
  fix words :: "string list" and i f
  assume h: "1 < i \<and> i < length words
      \<and> ((words ! (i - 1) \<in> set negation_words \<and> intensifier (words ! (i - 2)) = Some f)
          \<or> (intensifier (words ! (i - 1)) = Some f \<and> words ! (i - 2) \<in> set negation_words))"
  then show n: "negated_at words i" by (auto simp: negated_at_def)
  from h show int: "intensity_at words i = f"
    by (auto simp: intensity_at_def dest: negation_not_intensifier)
  {
    fix acc
    assume "words ! i \<in> set positive_words"
    with n int show "score_word words acc (i, words ! i) =
              acc\<lparr>negative := negative acc + 1.0 * f, word_count := word_count acc + 1\<rparr>"
      by (simp add: score_word_def Let_def)
  }
  {
    fix acc
    assume "words ! i \<notin> set positive_words \<and> words ! i \<in> set negative_words"
    with n int show "score_word words acc (i, words ! i) =
              acc\<lparr>positive := positive acc + 1.0 * f, word_count := word_count acc + 1\<rparr>"
      by (simp add: score_word_def Let_def)
  }
next
  show "split (cleaned ''mycket inte bra'') = [''mycket'', ''inte'', ''bra'']" by code_simp
next
  show "score_word [''mycket'', ''inte'', ''bra''] \<lparr>positive = 0, negative = 0, word_count = 0\<rparr>
        (2, ''bra'')
       = \<lparr>positive = 0, negative = 1.5, word_count = 1\<rparr>"
    by code_simp
next
  show "scores (analyze_sentiment (Some ''mycket inte bra''))
       = Some \<lparr>positive = 0, negative = 1.5, word_count = 1\<rparr>"
    by code_simp
qed

theorem negation_and_intensity_independent_witness:
  "1 < (2::nat) \<and> 2 < length [''not'', ''very'', ''bad'']
   \<and> intensifier ([''not'', ''very'', ''bad''] ! (2 - 1)) = Some 1.5
   \<and> [''not'', ''very'', ''bad''] ! (2 - 2) \<in> set negation_words
   \<and> [''not'', ''very'', ''bad''] ! 2 \<notin> set positive_words
   \<and> [''not'', ''very'', ''bad''] ! 2 \<in> set negative_words
   \<and> negated_at [''not'', ''very'', ''bad''] 2
   \<and> intensity_at [''not'', ''very'', ''bad''] 2 = 1.5
   \<and> score_word [''not'', ''very'', ''bad''] \<lparr>positive = 0, negative = 0, word_count = 0\<rparr>
        (2, ''bad'')
      = \<lparr>positive = 1.5, negative = 0, word_count = 1\<rparr>"
proof -
  let ?ws = "[''not'', ''very'', ''bad'']"
  let ?z = "\<lparr>positive = 0, negative = 0, word_count = 0\<rparr>"
  have h1: "1 < (2::nat) \<and> 2 < length ?ws" by simp
  have h2: "intensifier (?ws ! (2 - 1)) = Some 1.5 \<and> ?ws ! (2 - 2) \<in> set negation_words"
    by code_simp
  have h3: "?ws ! 2 \<notin> set positive_words \<and> ?ws ! 2 \<in> set negative_words"
    by code_simp
  from negation_and_intensity_independent
  have "1 < (2::nat) \<and> 2 < length ?ws
      \<and> ((?ws ! (2 - 1) \<in> set negation_words \<and> intensifier (?ws ! (2 - 2)) = Some 1.5)
          \<or> (intensifier (?ws ! (2 - 1)) = Some 1.5 \<and> ?ws ! (2 - 2) \<in> set negation_words))
      \<longrightarrow>
      negated_at ?ws 2 \<and> intensity_at ?ws 2 = 1.5
      \<and> (\<forall>acc. ?ws ! 2 \<in> set positive_words \<longrightarrow>
            score_word ?ws acc (2, ?ws ! 2) =
              acc\<lparr>negative := negative acc + 1.0 * 1.5, word_count := word_count acc + 1\<rparr>)
      \<and> (\<forall>acc. ?ws ! 2 \<notin> set positive_words \<and> ?ws ! 2 \<in> set negative_words \<longrightarrow>
            score_word ?ws acc (2, ?ws ! 2) =
              acc\<lparr>positive := positive acc + 1.0 * 1.5, word_count := word_count acc + 1\<rparr>)"
    by blast
  with h1 h2 have n: "negated_at ?ws 2" and i: "intensity_at ?ws 2 = 1.5"
    and s: "?ws ! 2 \<notin> set positive_words \<and> ?ws ! 2 \<in> set negative_words \<longrightarrow>
            score_word ?ws ?z (2, ?ws ! 2) =
              ?z\<lparr>positive := positive ?z + 1.0 * 1.5, word_count := word_count ?z + 1\<rparr>"
    by blast+
  from s h3 have "score_word ?ws ?z (2, ?ws ! 2) =
              ?z\<lparr>positive := positive ?z + 1.0 * 1.5, word_count := word_count ?z + 1\<rparr>"
    by blast
  then have "score_word ?ws ?z (2, ''bad'') = \<lparr>positive = 1.5, negative = 0, word_count = 1\<rparr>"
    by simp
  with h1 h2 h3 n i show ?thesis by blast
qed

text \<open>
  C9. Every intensity is at least 1, a matched word raises the sum of the two weights by
  at least 1, and so a scan that matched a word has a positive total weight. In
  \<^verbatim>\<open>analyze_sentiment\<close> the test \<^verbatim>\<open>total_score == 0\<close> is therefore never true where it
  is evaluated: a result that carries a non-zero word count has a non-zero total and its
  score is the quotient, not the fallback.
\<close>

theorem total_weight_positive:
  "(\<forall>words i. 1 \<le> intensity_at words i)
   \<and> (\<forall>words acc i w. sentiment_word w \<longrightarrow>
         positive acc + negative acc + 1
           \<le> positive (score_word words acc (i, w)) + negative (score_word words acc (i, w)))
   \<and> (\<forall>words. 0 < word_count (scan words) \<longrightarrow>
         0 < positive (scan words) + negative (scan words))
   \<and> (\<forall>t acc. scores (analyze_sentiment t) = Some acc \<and> 0 < word_count acc \<longrightarrow>
         0 < positive acc + negative acc
         \<and> score (analyze_sentiment t) = positive acc / (positive acc + negative acc))"
proof (intro conjI allI impI)
  fix words :: "string list" and i
  show "1 \<le> intensity_at words i" by (rule intensity_at_ge_one)
next
  fix words :: "string list" and acc i w
  assume "sentiment_word w"
  then show "positive acc + negative acc + 1
           \<le> positive (score_word words acc (i, w)) + negative (score_word words acc (i, w))"
    using intensity_at_ge_one [of words i]
    by (auto simp: score_word_def Let_def sentiment_word_def)
next
  fix words :: "string list"
  assume "0 < word_count (scan words)"
  with scan_weight [of words] show "0 < positive (scan words) + negative (scan words)"
    by (simp add: order.strict_trans2)
next
  fix t acc
  assume h: "scores (analyze_sentiment t) = Some acc \<and> 0 < word_count acc"
  have "t \<noteq> None"
  proof
    assume "t = None"
    with h show False by (simp add: analyze_sentiment_falsy)
  qed
  moreover have "t \<noteq> Some []"
  proof
    assume "t = Some []"
    with h show False by (simp add: analyze_sentiment_falsy)
  qed
  ultimately obtain s where t: "t = Some s" and s: "s \<noteq> []"
    by (cases t) auto
  from h have acc: "acc = scan (split (cleaned s))"
    and sc: "score (analyze_sentiment t)
       = positive (scan (split (cleaned s)))
         / (positive (scan (split (cleaned s))) + negative (scan (split (cleaned s))))"
    unfolding t analyze_sentiment_unfold [OF s]
    by (auto simp: Let_def split: if_splits)
  from h scan_weight [of "split (cleaned s)"] show "0 < positive acc + negative acc"
    unfolding acc by (simp add: order.strict_trans2)
  from sc show "score (analyze_sentiment t) = positive acc / (positive acc + negative acc)"
    unfolding acc .
qed

theorem total_weight_positive_witness:
  "sentiment_word ''awful''
   \<and> 0 < word_count (scan [''really'', ''awful'', ''food''])
   \<and> 0 < positive (scan [''really'', ''awful'', ''food''])
         + negative (scan [''really'', ''awful'', ''food''])
   \<and> scores (analyze_sentiment (Some ''really awful food''))
       = Some \<lparr>positive = 0, negative = 1.4, word_count = 1\<rparr>
   \<and> score (analyze_sentiment (Some ''really awful food'')) = 0"
proof -
  let ?ws = "[''really'', ''awful'', ''food'']"
  let ?acc = "\<lparr>positive = 0, negative = 1.4, word_count = 1\<rparr>"
  have a: "sentiment_word ''awful''" by code_simp
  have b: "0 < word_count (scan ?ws)" by code_simp
  have c: "scores (analyze_sentiment (Some ''really awful food'')) = Some ?acc
      \<and> 0 < word_count ?acc"
    by code_simp
  from total_weight_positive
  have p: "0 < word_count (scan ?ws) \<longrightarrow> 0 < positive (scan ?ws) + negative (scan ?ws)"
    and q: "scores (analyze_sentiment (Some ''really awful food'')) = Some ?acc
         \<and> 0 < word_count ?acc \<longrightarrow>
         0 < positive ?acc + negative ?acc
         \<and> score (analyze_sentiment (Some ''really awful food''))
            = positive ?acc / (positive ?acc + negative ?acc)"
    by blast+
  from q c have "score (analyze_sentiment (Some ''really awful food''))
            = positive ?acc / (positive ?acc + negative ?acc)"
    by blast
  then have "score (analyze_sentiment (Some ''really awful food'')) = 0" by simp
  with a b c p show ?thesis by blast
qed

section \<open>Claims about keyword extraction and the batch operation\<close>

text \<open>
  C6. The bound is a count of keywords: a natural number \<open>n\<close>, handed to the code as
  the integer \<open>int n\<close>. For every text and every such bound the result has at most \<open>n\<close>
  entries, no entry is a stop word, every entry is longer than three characters, and of
  two entries the earlier one occurs more often among the tokens of the cleaned text, or
  equally often with an earlier first occurrence. \<^verbatim>\<open>None\<close> and the empty string give
  the empty list.
\<close>

theorem extract_keywords_bounded_ordered:
  "(\<forall>s n. let r = extract_keywords (Some s) (int n) in
      length r \<le> n
      \<and> (\<forall>w\<in>set r. w \<notin> set stop_words \<and> 3 < length w)
      \<and> (\<forall>i j. i < j \<and> j < length r \<longrightarrow>
            count_list (tokens s) (r ! j) < count_list (tokens s) (r ! i)
            \<or> (count_list (tokens s) (r ! i) = count_list (tokens s) (r ! j)
                \<and> first_index (tokens s) (r ! i) < first_index (tokens s) (r ! j))))
   \<and> (\<forall>n. extract_keywords None (int n) = [] \<and> extract_keywords (Some []) (int n) = [])"
proof (intro conjI allI)
  fix s :: string and n :: nat
  let ?ok = "\<lambda>word. length word > 3 \<and> word \<notin> set stop_words"
  let ?r = "extract_keywords (Some s) (int n)"
  have len: "length ?r \<le> n"
    by (cases "s = []") (auto simp: extract_keywords_falsy extract_keywords_unfold slice_to_def)
  have mem: "\<forall>w\<in>set ?r. w \<notin> set stop_words \<and> 3 < length w"
  proof (cases "Some s" "int n" rule: extract_keywords_cases)
    case 1
    then show ?thesis by simp
  next
    case (2 s' k)
    have "w \<in> set (filter ?ok (tokens s))" if "w \<in> set ?r" for w
      using that 2 keywords_of_table [of w k "filter ?ok (tokens s)"] by simp
    then show ?thesis by auto
  qed
  have ord: "sorted_wrt (\<lambda>a b. count_list (tokens s) b < count_list (tokens s) a
        \<or> (count_list (tokens s) a = count_list (tokens s) b
            \<and> first_index (tokens s) a < first_index (tokens s) b)) ?r"
  proof (cases "Some s" "int n" rule: extract_keywords_cases)
    case 1
    then show ?thesis by simp
  next
    case (2 s' k)
    then show ?thesis
      using keywords_of_table_sorted [where P = ?ok and toks = "tokens s" and n = k, OF refl]
      by simp
  qed
  from len mem ord show "let r = extract_keywords (Some s) (int n) in
      length r \<le> n
      \<and> (\<forall>w\<in>set r. w \<notin> set stop_words \<and> 3 < length w)
      \<and> (\<forall>i j. i < j \<and> j < length r \<longrightarrow>
            count_list (tokens s) (r ! j) < count_list (tokens s) (r ! i)
            \<or> (count_list (tokens s) (r ! i) = count_list (tokens s) (r ! j)
                \<and> first_index (tokens s) (r ! i) < first_index (tokens s) (r ! j)))"
    by (simp add: Let_def sorted_wrt_iff_nth_less)
next
  fix n :: nat
  show "extract_keywords None (int n) = []" by (rule extract_keywords_falsy)
  show "extract_keywords (Some []) (int n) = []" by (rule extract_keywords_falsy)
qed

theorem extract_keywords_bounded_ordered_witness:
  "extract_keywords (Some ''Slow delivery, slow support; delivery was late. Late!'') (int 2)
       = [''slow'', ''delivery'']
   \<and> length [''slow'', ''delivery''] \<le> 2
   \<and> (0::nat) < 1 \<and> 1 < length [''slow'', ''delivery'']
   \<and> count_list (tokens ''Slow delivery, slow support; delivery was late. Late!'') ''slow'' = 2
   \<and> count_list (tokens ''Slow delivery, slow support; delivery was late. Late!'') ''delivery'' = 2
   \<and> first_index (tokens ''Slow delivery, slow support; delivery was late. Late!'') ''slow''
       < first_index (tokens ''Slow delivery, slow support; delivery was late. Late!'') ''delivery''"
proof -
  let ?s = "''Slow delivery, slow support; delivery was late. Late!''"
  have "extract_keywords (Some ?s) 2 = [''slow'', ''delivery'']" by code_simp
  then have r: "extract_keywords (Some ?s) (int 2) = [''slow'', ''delivery'']" by simp
  have c1: "count_list (tokens ?s) ''slow'' = 2" by code_simp
  have c2: "count_list (tokens ?s) ''delivery'' = 2" by code_simp
  from extract_keywords_bounded_ordered
  have "let r = extract_keywords (Some ?s) (int 2) in
      length r \<le> 2
      \<and> (\<forall>w\<in>set r. w \<notin> set stop_words \<and> 3 < length w)
      \<and> (\<forall>i j. i < j \<and> j < length r \<longrightarrow>
            count_list (tokens ?s) (r ! j) < count_list (tokens ?s) (r ! i)
            \<or> (count_list (tokens ?s) (r ! i) = count_list (tokens ?s) (r ! j)
                \<and> first_index (tokens ?s) (r ! i) < first_index (tokens ?s) (r ! j)))"
    by blast
  then have "\<forall>i j. i < j \<and> j < length [''slow'', ''delivery''] \<longrightarrow>
            count_list (tokens ?s) ([''slow'', ''delivery''] ! j)
              < count_list (tokens ?s) ([''slow'', ''delivery''] ! i)
            \<or> (count_list (tokens ?s) ([''slow'', ''delivery''] ! i)
                  = count_list (tokens ?s) ([''slow'', ''delivery''] ! j)
                \<and> first_index (tokens ?s) ([''slow'', ''delivery''] ! i)
                    < first_index (tokens ?s) ([''slow'', ''delivery''] ! j))"
    unfolding r Let_def by blast
  then have "(0::nat) < 1 \<and> 1 < length [''slow'', ''delivery''] \<longrightarrow>
            count_list (tokens ?s) ([''slow'', ''delivery''] ! 1)
              < count_list (tokens ?s) ([''slow'', ''delivery''] ! 0)
            \<or> (count_list (tokens ?s) ([''slow'', ''delivery''] ! 0)
                  = count_list (tokens ?s) ([''slow'', ''delivery''] ! 1)
                \<and> first_index (tokens ?s) ([''slow'', ''delivery''] ! 0)
                    < first_index (tokens ?s) ([''slow'', ''delivery''] ! 1))"
    by blast
  then have "first_index (tokens ?s) ''slow'' < first_index (tokens ?s) ''delivery''"
    by (simp add: c1 c2)
  with r c1 c2 show ?thesis by simp
qed

text \<open>
  C10. The entries of the result are pairwise distinct, and each one is a token of the
  cleaned text.
\<close>

theorem extract_keywords_distinct_tokens:
  "(\<forall>s m. distinct (extract_keywords (Some s) m)
        \<and> set (extract_keywords (Some s) m) \<subseteq> set (tokens s))
   \<and> (\<forall>m. extract_keywords None m = [])"
proof (intro conjI allI)
  fix s :: string and m :: int
  show "distinct (extract_keywords (Some s) m)"
  proof (cases "Some s" m rule: extract_keywords_cases)
    case 1
    then show ?thesis by simp
  next
    case (2 s' n)
    then show ?thesis by (simp add: keywords_of_table_distinct)
  qed
  show "set (extract_keywords (Some s) m) \<subseteq> set (tokens s)"
  proof (cases "Some s" m rule: extract_keywords_cases)
    case 1
    then show ?thesis by simp
  next
    case (2 s' n)
    have "w \<in> set (filter (\<lambda>word. length word > 3 \<and> word \<notin> set stop_words) (tokens s))"
      if "w \<in> set (extract_keywords (Some s) m)" for w
      using that 2
        keywords_of_table [of w n
          "filter (\<lambda>word. length word > 3 \<and> word \<notin> set stop_words) (tokens s)"]
      by simp
    then show ?thesis by auto
  qed
next
  fix m :: int
  show "extract_keywords None m = []" by (rule extract_keywords_falsy)
qed

theorem extract_keywords_distinct_tokens_witness:
  "extract_keywords (Some ''Great pizza, great staff, GREAT view'') 10
     = [''great'', ''pizza'', ''staff'', ''view'']
   \<and> distinct [''great'', ''pizza'', ''staff'', ''view'']
   \<and> set [''great'', ''pizza'', ''staff'', ''view'']
       \<subseteq> set (tokens ''Great pizza, great staff, GREAT view'')"
proof -
  let ?s = "''Great pizza, great staff, GREAT view''"
  have r: "extract_keywords (Some ?s) 10 = [''great'', ''pizza'', ''staff'', ''view'']"
    by code_simp
  from extract_keywords_distinct_tokens
  have "distinct (extract_keywords (Some ?s) 10)
        \<and> set (extract_keywords (Some ?s) 10) \<subseteq> set (tokens ?s)"
    by blast
  with r show ?thesis by simp
qed

text \<open>
  C7. The batch result has the length of the input, and its entry at each position is the
  sentiment result of the text at that position with that text's keywords (at most ten)
  attached. An empty batch gives an empty result. An empty string or \<^verbatim>\<open>None\<close> anywhere
  in the batch gives the neutral result with confidence 0 and no keywords at its position,
  and the entries before and after it are those of the batches before and after it.
\<close>

theorem batch_analyze_pointwise:
  "(\<forall>texts. length (batch_analyze texts) = length texts
      \<and> (\<forall>i<length texts.
            batch_analyze texts ! i =
              with_keywords (analyze_sentiment (texts ! i)) (extract_keywords (texts ! i) 10)))
   \<and> batch_analyze [] = []
   \<and> (\<forall>xs ys t. falsy t \<longrightarrow>
         batch_analyze (xs @ [t] @ ys) =
           batch_analyze xs
           @ [\<lparr>sentiment = Neutral, score = 0.5, confidence = 0.0, scores = None,
               keywords' = []\<rparr>]
           @ batch_analyze ys)"
proof (intro conjI allI impI)
  fix texts :: "string option list"
  show "length (batch_analyze texts) = length texts"
    by (simp add: batch_analyze_map)
  fix i
  assume "i < length texts"
  then show "batch_analyze texts ! i =
      with_keywords (analyze_sentiment (texts ! i)) (extract_keywords (texts ! i) 10)"
    by (simp add: batch_analyze_map)
next
  show "batch_analyze [] = []" by (simp add: batch_analyze_map)
next
  fix xs ys :: "string option list" and t
  assume "falsy t"
  then have "t = None \<or> t = Some []" by (cases t) (auto simp: falsy_def)
  then have "with_keywords (analyze_sentiment t) (extract_keywords t 10)
      = \<lparr>sentiment = Neutral, score = 0.5, confidence = 0.0, scores = None, keywords' = []\<rparr>"
    by (auto simp: analyze_sentiment_falsy extract_keywords_falsy with_keywords_def
        sentiment_result.defs analysis.defs)
  then show "batch_analyze (xs @ [t] @ ys) =
           batch_analyze xs
           @ [\<lparr>sentiment = Neutral, score = 0.5, confidence = 0.0, scores = None,
               keywords' = []\<rparr>]
           @ batch_analyze ys"
    by (simp add: batch_analyze_map)
qed

theorem batch_analyze_pointwise_witness:
  "(1::nat) < length [Some ''inte bra'', Some ''great coffee'', Some []]
   \<and> batch_analyze [Some ''inte bra'', Some ''great coffee'', Some []] ! 1
      = \<lparr>sentiment = Positive, score = 1, confidence = 1 / 2,
         scores = Some \<lparr>positive = 1, negative = 0, word_count = 1\<rparr>,
         keywords' = [''great'', ''coffee'']\<rparr>
   \<and> falsy (Some [])
   \<and> batch_analyze ([Some ''inte bra'', Some ''great coffee''] @ [Some []] @ [])
      = batch_analyze [Some ''inte bra'', Some ''great coffee'']
        @ [\<lparr>sentiment = Neutral, score = 0.5, confidence = 0.0, scores = None,
            keywords' = []\<rparr>]
        @ batch_analyze []"
proof -
  let ?ts = "[Some ''inte bra'', Some ''great coffee'', Some []]"
  have l: "(1::nat) < length ?ts" by simp
  have f: "falsy (Some [])" by (simp add: falsy_def)
  have a: "analyze_sentiment (Some ''great coffee'')
      = \<lparr>sentiment = Positive, score = 1, confidence = 1 / 2,
         scores = Some \<lparr>positive = 1, negative = 0, word_count = 1\<rparr>\<rparr>"
    by code_simp
  have k: "extract_keywords (Some ''great coffee'') 10 = [''great'', ''coffee'']"
    by code_simp
  from batch_analyze_pointwise
  have p: "\<forall>i<length ?ts. batch_analyze ?ts ! i =
        with_keywords (analyze_sentiment (?ts ! i)) (extract_keywords (?ts ! i) 10)"
    and q: "falsy (Some []) \<longrightarrow>
         batch_analyze ([Some ''inte bra'', Some ''great coffee''] @ [Some []] @ []) =
           batch_analyze [Some ''inte bra'', Some ''great coffee'']
           @ [\<lparr>sentiment = Neutral, score = 0.5, confidence = 0.0, scores = None,
               keywords' = []\<rparr>]
           @ batch_analyze []"
    by blast+
  from p l have "batch_analyze ?ts ! 1 =
        with_keywords (analyze_sentiment (?ts ! 1)) (extract_keywords (?ts ! 1) 10)"
    by blast
  then have "batch_analyze ?ts ! 1
      = \<lparr>sentiment = Positive, score = 1, confidence = 1 / 2,
         scores = Some \<lparr>positive = 1, negative = 0, word_count = 1\<rparr>,
         keywords' = [''great'', ''coffee'']\<rparr>"
    by (simp add: a k with_keywords_def sentiment_result.defs analysis.defs)
  with l f q show ?thesis by blast
qed

end
